theory Spec2Isabelle
  imports Complex_Main "HOL-Library.Multiset"
begin

section \<open>Values and time\<close>

text \<open>
  A JavaScript number is modelled as a rational: every finite double is one, and the
  comparisons of the code are exact on them. The one place where the code computes on
  doubles with rounding, the \<open>$avg\<close> of the database, is a parameter of the model.

  A \<open>Date\<close> is its time value, the milliseconds since the epoch. The source reads the
  clock with \<open>new Date()\<close>; the model takes that reading as the argument \<open>now\<close>.
\<close>

type_synonym Date = int

definition msPerDay :: int where
  "msPerDay = 86400000"

text \<open>
  \<open>Date.prototype.toISOString\<close> of the runtime, written out: the civil date of the day
  number, then \<open>YYYY-MM-DDTHH:mm:ss.sssZ\<close>, with the six-digit signed year outside
  0..9999. The source calls it on the clock and on stored dates only, which are valid
  dates.
\<close>

definition digit :: "int \<Rightarrow> char" where
  "digit n = ''0123456789'' ! nat (n mod 10)"

definition pad2 :: "int \<Rightarrow> string" where
  "pad2 n = [digit (n div 10), digit n]"

definition pad3 :: "int \<Rightarrow> string" where
  "pad3 n = [digit (n div 100), digit (n div 10), digit n]"

definition pad4 :: "int \<Rightarrow> string" where
  "pad4 n = [digit (n div 1000), digit (n div 100), digit (n div 10), digit n]"

definition pad6 :: "int \<Rightarrow> string" where
  "pad6 n =
     [digit (n div 100000), digit (n div 10000), digit (n div 1000), digit (n div 100),
      digit (n div 10), digit n]"

definition civilFromDays :: "int \<Rightarrow> int \<times> int \<times> int" where
  "civilFromDays z0 =
     (let z = z0 + 719468;
          era = z div 146097;
          doe = z mod 146097;
          yoe = (doe - doe div 1460 + doe div 36524 - doe div 146096) div 365;
          y = yoe + era * 400;
          doy = doe - (365 * yoe + yoe div 4 - yoe div 100);
          mp = (5 * doy + 2) div 153;
          d = doy - (153 * mp + 2) div 5 + 1;
          m = (if mp < 10 then mp + 3 else mp - 9)
      in ((if m \<le> 2 then y + 1 else y), m, d))"

definition yearString :: "int \<Rightarrow> string" where
  "yearString y =
     (if 0 \<le> y \<and> y \<le> 9999 then pad4 y
      else (if y < 0 then ''-'' else ''+'') @ pad6 \<bar>y\<bar>)"

definition toISOString :: "Date \<Rightarrow> string" where
  "toISOString t =
     (let (y, m, d) = civilFromDays (t div msPerDay);
          r = t mod msPerDay
      in yearString y @ ''-'' @ pad2 m @ ''-'' @ pad2 d @ ''T''
         @ pad2 (r div 3600000) @ '':'' @ pad2 (r div 60000 mod 60) @ '':''
         @ pad2 (r div 1000 mod 60) @ ''.'' @ pad3 (r mod 1000) @ ''Z'')"

text \<open>\<open>d.toISOString().split('T')[0]\<close>: the text before the first \<open>T\<close>.\<close>

definition isoDate :: "Date \<Rightarrow> string" where
  "isoDate t = takeWhile (\<lambda>c. c \<noteq> CHR ''T'') (toISOString t)"

section \<open>shared/schema.ts: the submission validator\<close>

text \<open>
  \<open>insertFeedbackSchema\<close>, lines 44 to 60 of the schema. The request body is a parsed
  JSON value. An object is an association list read with \<open>map_of\<close>; a key that is
  absent is \<open>undefined\<close>. An issue is the path of the field and the code of the check
  that failed; the texts of the messages are left out.
\<close>

datatype json = JNull | JBool bool | JNum rat | JStr string
  | JArr "json list" | JObj "(string \<times> json) list"

datatype ZodIssueCode = invalid_type | too_small | too_big | invalid_string | invalid_enum_value

type_synonym ZodIssue = "string list \<times> ZodIssueCode"

type_synonym 'a parsed = "ZodIssue list + 'a"

datatype DineType = dine_in | take_out

record Ratings =
  foodQuality :: rat
  foodTaste :: rat
  staffBehavior :: rat
  hygiene :: rat
  ambience :: rat
  serviceSpeed :: rat

record InsertFeedback =
  in_name :: string
  in_phoneNumber :: string
  in_location :: string
  in_dineType :: DineType
  in_ratings :: Ratings
  in_note :: string
  in_staffName :: string
  in_staffComment :: string

text \<open>
  Zod parses every key of an object schema, in the order of the schema, and collects the
  issues of all of them; the parse succeeds when there is none. \<open>zodAp\<close> applies a
  constructor to one more parsed field and keeps the issues in that order.
\<close>

fun zodAp :: "('a \<Rightarrow> 'b) parsed \<Rightarrow> 'a parsed \<Rightarrow> 'b parsed" where
  "zodAp (Inr f) (Inr x) = Inr (f x)"
| "zodAp (Inl e) (Inr x) = Inl e"
| "zodAp (Inr f) (Inl e) = Inl e"
| "zodAp (Inl e) (Inl e') = Inl (e @ e')"

text \<open>\<open>z.string().min(1, ...)\<close>\<close>

definition zStringMin1 :: "string list \<Rightarrow> json option \<Rightarrow> string parsed" where
  "zStringMin1 p v =
     (case v of
        Some (JStr s) \<Rightarrow> if length s < 1 then Inl [(p, too_small)] else Inr s
      | _ \<Rightarrow> Inl [(p, invalid_type)])"

text \<open>\<open>z.string().regex(/^\d{10}$/, ...)\<close>\<close>

definition isDigit :: "char \<Rightarrow> bool" where
  "isDigit c = (c \<in> set ''0123456789'')"

definition tenDigits :: "string \<Rightarrow> bool" where
  "tenDigits s = (length s = 10 \<and> list_all isDigit s)"

definition zPhone :: "string list \<Rightarrow> json option \<Rightarrow> string parsed" where
  "zPhone p v =
     (case v of
        Some (JStr s) \<Rightarrow> if tenDigits s then Inr s else Inl [(p, invalid_string)]
      | _ \<Rightarrow> Inl [(p, invalid_type)])"

text \<open>\<open>z.enum(["dine_in", "take_out"])\<close>\<close>

definition zDineType :: "string list \<Rightarrow> json option \<Rightarrow> DineType parsed" where
  "zDineType p v =
     (case v of
        Some (JStr s) \<Rightarrow>
          if s = ''dine_in'' then Inr dine_in
          else if s = ''take_out'' then Inr take_out
          else Inl [(p, invalid_enum_value)]
      | _ \<Rightarrow> Inl [(p, invalid_type)])"

text \<open>\<open>z.number().min(1).max(5)\<close>: both bounds are inclusive, and nothing asks for an integer.\<close>

definition zRating :: "string list \<Rightarrow> json option \<Rightarrow> rat parsed" where
  "zRating p v =
     (case v of
        Some (JNum q) \<Rightarrow>
          if q < 1 then Inl [(p, too_small)]
          else if 5 < q then Inl [(p, too_big)]
          else Inr q
      | _ \<Rightarrow> Inl [(p, invalid_type)])"

text \<open>\<open>z.string().optional().default("")\<close>, with \<open>.max(500, ...)\<close> for the note.\<close>

definition zStringDefault :: "string list \<Rightarrow> json option \<Rightarrow> string parsed" where
  "zStringDefault p v =
     (case v of
        None \<Rightarrow> Inr ''''
      | Some (JStr s) \<Rightarrow> Inr s
      | _ \<Rightarrow> Inl [(p, invalid_type)])"

definition zNote :: "string list \<Rightarrow> json option \<Rightarrow> string parsed" where
  "zNote p v =
     (case v of
        None \<Rightarrow> Inr ''''
      | Some (JStr s) \<Rightarrow> if 500 < length s then Inl [(p, too_big)] else Inr s
      | _ \<Rightarrow> Inl [(p, invalid_type)])"

definition mkRatings :: "rat \<Rightarrow> rat \<Rightarrow> rat \<Rightarrow> rat \<Rightarrow> rat \<Rightarrow> rat \<Rightarrow> Ratings" where
  "mkRatings a b c d e f =
     \<lparr>foodQuality = a, foodTaste = b, staffBehavior = c, hygiene = d, ambience = e,
      serviceSpeed = f\<rparr>"

definition zRatings :: "string list \<Rightarrow> json option \<Rightarrow> Ratings parsed" where
  "zRatings p v =
     (case v of
        Some (JObj rs) \<Rightarrow>
          zodAp (zodAp (zodAp (zodAp (zodAp (zodAp (Inr mkRatings)
            (zRating (p @ [''foodQuality'']) (map_of rs ''foodQuality'')))
            (zRating (p @ [''foodTaste'']) (map_of rs ''foodTaste'')))
            (zRating (p @ [''staffBehavior'']) (map_of rs ''staffBehavior'')))
            (zRating (p @ [''hygiene'']) (map_of rs ''hygiene'')))
            (zRating (p @ [''ambience'']) (map_of rs ''ambience'')))
            (zRating (p @ [''serviceSpeed'']) (map_of rs ''serviceSpeed''))
      | _ \<Rightarrow> Inl [(p, invalid_type)])"

definition mkInsertFeedback ::
  "string \<Rightarrow> string \<Rightarrow> string \<Rightarrow> DineType \<Rightarrow> Ratings \<Rightarrow> string \<Rightarrow> string \<Rightarrow> string
   \<Rightarrow> InsertFeedback" where
  "mkInsertFeedback n ph l dt r nt sn sc =
     \<lparr>in_name = n, in_phoneNumber = ph, in_location = l, in_dineType = dt, in_ratings = r,
      in_note = nt, in_staffName = sn, in_staffComment = sc\<rparr>"

definition insertFeedbackSchema :: "json \<Rightarrow> InsertFeedback parsed" where
  "insertFeedbackSchema body =
     (case body of
        JObj kvs \<Rightarrow>
          zodAp (zodAp (zodAp (zodAp (zodAp (zodAp (zodAp (zodAp (Inr mkInsertFeedback)
            (zStringMin1 [''name''] (map_of kvs ''name'')))
            (zPhone [''phoneNumber''] (map_of kvs ''phoneNumber'')))
            (zStringMin1 [''location''] (map_of kvs ''location'')))
            (zDineType [''dineType''] (map_of kvs ''dineType'')))
            (zRatings [''ratings''] (map_of kvs ''ratings'')))
            (zNote [''note''] (map_of kvs ''note'')))
            (zStringDefault [''staffName''] (map_of kvs ''staffName'')))
            (zStringDefault [''staffComment''] (map_of kvs ''staffComment''))
      | _ \<Rightarrow> Inl [([], invalid_type)])"

text \<open>\<open>objectIdSchema\<close>, line 4 of the schema: \<open>z.string().regex(/^[0-9a-fA-F]{24}$/, ...)\<close>\<close>

definition isHexDigit :: "char \<Rightarrow> bool" where
  "isHexDigit c = (c \<in> set ''0123456789abcdefABCDEF'')"

definition objectIdSchema :: "string \<Rightarrow> bool" where
  "objectIdSchema s = (length s = 24 \<and> list_all isHexDigit s)"

definition categories :: "string list" where
  "categories =
     [''foodQuality'', ''foodTaste'', ''staffBehavior'', ''hygiene'', ''ambience'',
      ''serviceSpeed'']"

section \<open>server/storage.ts: documents and the store\<close>

text \<open>
  Field names carry a prefix for the record they belong to (\<open>v_\<close> a stored visit,
  \<open>d_\<close> a stored Feedback document, \<open>c_\<close> a CustomerCard, \<open>o_\<close> and \<open>f_\<close> the visit
  and the Feedback of a response, \<open>q_\<close> the filters of a query), since the source uses
  the same names in all of them.

  An ObjectId is the string that \<open>toString()\<close> prints for it: 24 hexadecimal digits in
  lower case.
\<close>

type_synonym ObjectId = string

record IVisit =
  v_location :: string
  v_dineType :: DineType
  v_ratings :: Ratings
  v_note :: "string option"
  v_staffName :: "string option"
  v_staffComment :: "string option"
  v_createdAt :: Date
  v_dateKey :: string

text \<open>
  The flat schema that preceded the visits list stored one submission in the document
  itself, with five ratings of other names. \<open>mapDocument\<close> still reads those fields,
  so a stored document carries them as optional fields.
\<close>

record LegacyRatings =
  l_interior :: rat
  l_food :: rat
  l_service :: rat
  l_staff :: rat
  l_hygiene :: rat

datatype AnyRatings = SixRatings Ratings | FlatRatings LegacyRatings

record IFeedback =
  d_id :: ObjectId
  d_name :: string
  d_phoneNumber :: string
  d_visits :: "IVisit list option"
  d_contactedAt :: "Date option"
  d_contactedBy :: "string option"
  d_location :: "string option"
  d_dineType :: "DineType option"
  d_ratings :: "AnyRatings option"
  d_note :: "string option"
  d_staffName :: "string option"
  d_staffComment :: "string option"
  d_createdAt :: "Date option"
  d_dateKey :: "string option"

record ICustomerCard =
  c_phoneNumber :: string
  c_name :: string
  c_totalVisits :: int
  c_firstVisitDate :: Date
  c_lastVisitDate :: Date
  c_visits :: "ObjectId list"

text \<open>The two collections, each in insertion order.\<close>

record Store =
  feedbacks :: "IFeedback list"
  customerCards :: "ICustomerCard list"

text \<open>What a response carries: dates are ISO strings.\<close>

record Visit =
  o_location :: string
  o_dineType :: DineType
  o_ratings :: AnyRatings
  o_note :: string
  o_staffName :: string
  o_staffComment :: string
  o_createdAt :: string
  o_dateKey :: string

record Feedback =
  f_id :: string
  f_name :: string
  f_phoneNumber :: string
  f_contactedAt :: "string option"
  f_contactedBy :: "string option"
  f_visits :: "Visit list"

text \<open>The VisitSchema validators that Mongoose runs on a visit when its document is saved.\<close>

definition ratingInRange :: "rat \<Rightarrow> bool" where
  "ratingInRange q = (1 \<le> q \<and> q \<le> 5)"

definition VisitSchema :: "IVisit \<Rightarrow> bool" where
  "VisitSchema v =
     (v_location v \<noteq> [] \<and>
      ratingInRange (foodQuality (v_ratings v)) \<and>
      ratingInRange (foodTaste (v_ratings v)) \<and>
      ratingInRange (staffBehavior (v_ratings v)) \<and>
      ratingInRange (hygiene (v_ratings v)) \<and>
      ratingInRange (ambience (v_ratings v)) \<and>
      ratingInRange (serviceSpeed (v_ratings v)) \<and>
      (case v_note v of None \<Rightarrow> True | Some n \<Rightarrow> length n \<le> 500) \<and>
      v_dateKey v \<noteq> [])"

subsection \<open>JavaScript idioms\<close>

text \<open>A string is truthy when it is present and not empty; \<open>x || ""\<close> on an optional string.\<close>

definition truthy :: "string option \<Rightarrow> bool" where
  "truthy x = (case x of None \<Rightarrow> False | Some s \<Rightarrow> s \<noteq> [])"

definition orEmpty :: "string option \<Rightarrow> string" where
  "orEmpty x = (case x of None \<Rightarrow> [] | Some s \<Rightarrow> s)"

text \<open>\<open>toLowerCase()\<close> on ASCII text\<close>

definition upperCase :: string where
  "upperCase = ''ABCDEFGHIJKLMNOPQRSTUVWXYZ''"

definition lowerCase :: string where
  "lowerCase = ''abcdefghijklmnopqrstuvwxyz''"

definition toLowerCase :: "string \<Rightarrow> string" where
  "toLowerCase s =
     map (\<lambda>c. case map_of (zip upperCase lowerCase) c of None \<Rightarrow> c | Some l \<Rightarrow> l) s"

text \<open>\<open>Array.prototype.slice(start, end)\<close>: a negative index counts from the end.\<close>

definition jsSlice :: "int \<Rightarrow> int \<Rightarrow> 'a list \<Rightarrow> 'a list" where
  "jsSlice start stop xs =
     (let len = int (length xs);
          k = (if start < 0 then max (len + start) 0 else min start len);
          final = (if stop < 0 then max (len + stop) 0 else min stop len)
      in take (nat (final - k)) (drop (nat k) xs))"

text \<open>Writing a document back: the first one that the lookup finds is the one replaced.\<close>

fun updateFirst :: "('a \<Rightarrow> bool) \<Rightarrow> ('a \<Rightarrow> 'a) \<Rightarrow> 'a list \<Rightarrow> 'a list" where
  "updateFirst P f [] = []"
| "updateFirst P f (x # xs) = (if P x then f x # xs else x # updateFirst P f xs)"

subsection \<open>mapDocument\<close>

text \<open>Lines 306 to 348. \<open>rawDoc.visits || []\<close>:\<close>

definition visitsOf :: "IFeedback \<Rightarrow> IVisit list" where
  "visitsOf d = (case d_visits d of None \<Rightarrow> [] | Some vs \<Rightarrow> vs)"

definition mapVisit :: "IVisit \<Rightarrow> Visit" where
  "mapVisit v =
     \<lparr>o_location = v_location v, o_dineType = v_dineType v,
      o_ratings = SixRatings (v_ratings v),
      o_note = orEmpty (v_note v), o_staffName = orEmpty (v_staffName v),
      o_staffComment = orEmpty (v_staffComment v),
      o_createdAt = toISOString (v_createdAt v), o_dateKey = v_dateKey v\<rparr>"

definition defaultRatings :: Ratings where
  "defaultRatings =
     \<lparr>foodQuality = 5, foodTaste = 5, staffBehavior = 5, hygiene = 5, ambience = 5,
      serviceSpeed = 5\<rparr>"

text \<open>
  The visit that \<open>mapDocument\<close> builds from the flat fields of an old document (lines
  312 to 328), as the final \<open>visits.map\<close> hands it out (lines 337 to 346). It is built
  only where the flat location is there and not empty.
\<close>

definition legacyVisit :: "Date \<Rightarrow> IFeedback \<Rightarrow> Visit" where
  "legacyVisit now d =
     \<lparr>o_location = orEmpty (d_location d),
      o_dineType = (case d_dineType d of None \<Rightarrow> dine_in | Some t \<Rightarrow> t),
      o_ratings = (case d_ratings d of None \<Rightarrow> SixRatings defaultRatings | Some r \<Rightarrow> r),
      o_note = orEmpty (d_note d), o_staffName = orEmpty (d_staffName d),
      o_staffComment = orEmpty (d_staffComment d),
      o_createdAt = toISOString (case d_createdAt d of None \<Rightarrow> now | Some t \<Rightarrow> t),
      o_dateKey =
        (if truthy (d_dateKey d) then orEmpty (d_dateKey d)
         else case d_createdAt d of None \<Rightarrow> isoDate now | Some t \<Rightarrow> isoDate t)\<rparr>"

definition mapDocument :: "Date \<Rightarrow> IFeedback \<Rightarrow> Feedback" where
  "mapDocument now d =
     \<lparr>f_id = d_id d, f_name = d_name d, f_phoneNumber = d_phoneNumber d,
      f_contactedAt = map_option toISOString (d_contactedAt d),
      f_contactedBy = (if truthy (d_contactedBy d) then d_contactedBy d else None),
      f_visits =
        (if visitsOf d = [] \<and> truthy (d_location d) then [legacyVisit now d]
         else map mapVisit (visitsOf d))\<rparr>"

subsection \<open>createFeedback\<close>

text \<open>
  Lines 92 to 158. The error that the function throws carries a message and a code; a
  save adds no failure of its own, since the function is called on what
  \<open>insertFeedbackSchema\<close> has accepted, which passes the validators of the Mongoose
  schemas (see the section on the VisitSchema below).
\<close>

datatype StoreError = StoreError string int

definition alreadySubmitted :: StoreError where
  "alreadySubmitted = StoreError ''Already submitted today'' 11000"

record CustomerCardView =
  cv_totalVisits :: int
  cv_firstVisitDate :: string
  cv_lastVisitDate :: string

record CreateResult =
  feedback :: Feedback
  customerCard :: "CustomerCardView option"

definition newVisit :: "Date \<Rightarrow> InsertFeedback \<Rightarrow> IVisit" where
  "newVisit now i =
     \<lparr>v_location = in_location i, v_dineType = in_dineType i, v_ratings = in_ratings i,
      v_note = Some (in_note i), v_staffName = Some (in_staffName i),
      v_staffComment = Some (in_staffComment i),
      v_createdAt = now, v_dateKey = isoDate now\<rparr>"

definition newFeedback :: "ObjectId \<Rightarrow> InsertFeedback \<Rightarrow> IVisit \<Rightarrow> IFeedback" where
  "newFeedback oid i visit =
     \<lparr>d_id = oid, d_name = in_name i, d_phoneNumber = in_phoneNumber i,
      d_visits = Some [visit], d_contactedAt = None, d_contactedBy = None,
      d_location = None, d_dineType = None, d_ratings = None, d_note = None,
      d_staffName = None, d_staffComment = None, d_createdAt = None, d_dateKey = None\<rparr>"

definition findFeedback :: "string \<Rightarrow> Store \<Rightarrow> IFeedback option" where
  "findFeedback phone s = find (\<lambda>d. d_phoneNumber d = phone) (feedbacks s)"

definition findCustomerCard :: "string \<Rightarrow> Store \<Rightarrow> ICustomerCard option" where
  "findCustomerCard phone s = find (\<lambda>c. c_phoneNumber c = phone) (customerCards s)"

text \<open>Lines 130 to 148: the card of the phone number is updated, or created.\<close>

definition upsertCustomerCard ::
  "Date \<Rightarrow> InsertFeedback \<Rightarrow> ObjectId \<Rightarrow> ICustomerCard list \<Rightarrow> ICustomerCard \<times> ICustomerCard list"
  where
  "upsertCustomerCard now i fid cs =
     (case find (\<lambda>c. c_phoneNumber c = in_phoneNumber i) cs of
        Some c \<Rightarrow>
          (let c' = c\<lparr>c_totalVisits := c_totalVisits c + 1, c_lastVisitDate := now,
                       c_visits := (if fid \<in> set (c_visits c) then c_visits c
                                    else c_visits c @ [fid])\<rparr>
           in (c', updateFirst (\<lambda>c. c_phoneNumber c = in_phoneNumber i) (\<lambda>_. c') cs))
      | None \<Rightarrow>
          (let c' = \<lparr>c_phoneNumber = in_phoneNumber i, c_name = in_name i, c_totalVisits = 1,
                     c_firstVisitDate = now, c_lastVisitDate = now, c_visits = [fid]\<rparr>
           in (c', cs @ [c'])))"

definition cardView :: "ICustomerCard \<Rightarrow> CustomerCardView" where
  "cardView c =
     \<lparr>cv_totalVisits = c_totalVisits c,
      cv_firstVisitDate = toISOString (c_firstVisitDate c),
      cv_lastVisitDate = toISOString (c_lastVisitDate c)\<rparr>"

text \<open>
  Lines 107 to 127: the Feedback of the phone number gets the visit, unless it already
  has one of today; a phone number seen for the first time gets a new document, whose id
  \<open>oid\<close> the driver generates.
\<close>

definition saveVisit ::
  "Date \<Rightarrow> ObjectId \<Rightarrow> InsertFeedback \<Rightarrow> IFeedback list
   \<Rightarrow> StoreError + (IFeedback \<times> IFeedback list)" where
  "saveVisit now oid i fs =
     (let dateKey = isoDate now; visit = newVisit now i
      in case find (\<lambda>d. d_phoneNumber d = in_phoneNumber i) fs of
           Some fb \<Rightarrow>
             if list_ex (\<lambda>v. v_dateKey v = dateKey) (visitsOf fb) then Inl alreadySubmitted
             else (let fb' = fb\<lparr>d_visits := Some (visitsOf fb @ [visit])\<rparr>
                   in Inr (fb', updateFirst (\<lambda>d. d_phoneNumber d = in_phoneNumber i)
                                  (\<lambda>_. fb') fs))
         | None \<Rightarrow>
             (let fb' = newFeedback oid i visit in Inr (fb', fs @ [fb'])))"

definition createFeedback ::
  "Store \<Rightarrow> Date \<Rightarrow> ObjectId \<Rightarrow> InsertFeedback \<Rightarrow> (StoreError + CreateResult) \<times> Store" where
  "createFeedback s now oid i =
     (case saveVisit now oid i (feedbacks s) of
        Inl e \<Rightarrow> (Inl e, s)
      | Inr (fb, fs) \<Rightarrow>
          (let (card, cs) = upsertCustomerCard now i (d_id fb) (customerCards s)
           in (Inr \<lparr>feedback = mapDocument now fb, customerCard = Some (cardView card)\<rparr>,
               \<lparr>feedbacks = fs, customerCards = cs\<rparr>)))"

subsection \<open>getFeedback\<close>

text \<open>
  Lines 160 to 195. \<open>page\<close> and \<open>limit\<close> are integers; the \<open>NaN\<close> that the route's
  \<open>parseInt\<close> can produce is not modelled.
\<close>

record Filters =
  q_page :: int
  q_limit :: int
  q_search :: "string option"
  q_date :: "string option"
  q_rating :: "int option"

record FeedbackPage =
  r_data :: "Feedback list"
  r_total :: nat

text \<open>
  The query document. The regular-expression engine of the database is the parameter
  \<open>rx\<close>: \<open>rx pat str\<close> says whether \<open>str\<close> matches \<open>pat\<close> with the option \<open>i\<close>.
  The key \<open>visits.dateKey\<close> matches a document one of whose visits has that dateKey.
\<close>

definition searchMatches :: "(string \<Rightarrow> string \<Rightarrow> bool) \<Rightarrow> string \<Rightarrow> IFeedback \<Rightarrow> bool" where
  "searchMatches rx pat d = (rx pat (d_name d) \<or> rx pat (d_phoneNumber d))"

definition hasVisitOn :: "string \<Rightarrow> IFeedback \<Rightarrow> bool" where
  "hasVisitOn k d = list_ex (\<lambda>v. v_dateKey v = k) (visitsOf d)"

definition queryMatches :: "(string \<Rightarrow> string \<Rightarrow> bool) \<Rightarrow> Filters \<Rightarrow> IFeedback \<Rightarrow> bool" where
  "queryMatches rx f d =
     ((if truthy (q_search f) then searchMatches rx (orEmpty (q_search f)) d else True) \<and>
      (if truthy (q_date f) then hasVisitOn (orEmpty (q_date f)) d else True))"

text \<open>
  \<open>sort({"visits.createdAt": -1})\<close>: a descending sort compares the latest visit of each
  document, and a document without visits comes last. Documents that compare equal stay in
  the order of the collection.
\<close>

definition sortKey :: "IFeedback \<Rightarrow> Date option" where
  "sortKey d =
     (case visitsOf d of [] \<Rightarrow> None | v # vs \<Rightarrow> Some (fold max (map v_createdAt vs) (v_createdAt v)))"

definition keyLess :: "Date option \<Rightarrow> Date option \<Rightarrow> bool" where
  "keyLess a b =
     (case b of None \<Rightarrow> False | Some y \<Rightarrow> (case a of None \<Rightarrow> True | Some x \<Rightarrow> x < y))"

fun insertDesc :: "IFeedback \<Rightarrow> IFeedback list \<Rightarrow> IFeedback list" where
  "insertDesc x [] = [x]"
| "insertDesc x (y # ys) =
     (if keyLess (sortKey x) (sortKey y) then y # insertDesc x ys else x # y # ys)"

definition sortDesc :: "IFeedback list \<Rightarrow> IFeedback list" where
  "sortDesc xs = foldr insertDesc xs []"

text \<open>Lines 184 to 189: with a date filter, the visits of other dates are taken out.\<close>

definition onlyDate :: "string \<Rightarrow> Feedback \<Rightarrow> Feedback" where
  "onlyDate k fb = fb\<lparr>f_visits := filter (\<lambda>v. o_dateKey v = k) (f_visits fb)\<rparr>"

definition filteredResults ::
  "(string \<Rightarrow> string \<Rightarrow> bool) \<Rightarrow> Store \<Rightarrow> Date \<Rightarrow> Filters \<Rightarrow> Feedback list" where
  "filteredResults rx s now f =
     (let results = map (mapDocument now) (sortDesc (filter (queryMatches rx f) (feedbacks s)))
      in if truthy (q_date f)
         then filter (\<lambda>fb. 0 < length (f_visits fb)) (map (onlyDate (orEmpty (q_date f))) results)
         else results)"

definition countDocuments :: "(string \<Rightarrow> string \<Rightarrow> bool) \<Rightarrow> Store \<Rightarrow> Filters \<Rightarrow> nat" where
  "countDocuments rx s f = length (filter (queryMatches rx f) (feedbacks s))"

definition getFeedback ::
  "(string \<Rightarrow> string \<Rightarrow> bool) \<Rightarrow> Store \<Rightarrow> Date \<Rightarrow> Filters \<Rightarrow> FeedbackPage" where
  "getFeedback rx s now f =
     (let skip = (q_page f - 1) * q_limit f;
          total = countDocuments rx s f;
          results = filteredResults rx s now f
      in \<lparr>r_data = jsSlice skip (skip + q_limit f) results,
          r_total = (if truthy (q_date f) then length results else total)\<rparr>)"

subsection \<open>markContacted\<close>

text \<open>
  Lines 197 to 207. The route hands over the id of the request path as it came.
  \<open>findByIdAndUpdate\<close> first casts it to an ObjectId: a string that is not the 24
  hexadecimal digits of an ObjectId (the shape that \<open>objectIdSchema\<close> describes) makes it
  throw a CastError, which the route answers with 500; the digits are read without regard
  to case. It then sets the two fields on the document of that id and returns it, or
  returns null when there is none, which the route answers with 404.
\<close>

datatype MongooseError = CastError

definition castObjectId :: "string \<Rightarrow> MongooseError + ObjectId" where
  "castObjectId idString =
     (if objectIdSchema idString then Inr (toLowerCase idString) else Inl CastError)"

record ContactUpdate =
  contactedBy :: string

definition setContacted :: "string \<Rightarrow> Date \<Rightarrow> IFeedback \<Rightarrow> IFeedback" where
  "setContacted staff now d = d\<lparr>d_contactedBy := Some staff, d_contactedAt := Some now\<rparr>"

definition findById :: "ObjectId \<Rightarrow> Store \<Rightarrow> IFeedback option" where
  "findById oid s = find (\<lambda>d. d_id d = oid) (feedbacks s)"

definition markContacted ::
  "Store \<Rightarrow> Date \<Rightarrow> string \<Rightarrow> ContactUpdate \<Rightarrow> (MongooseError + Feedback option) \<times> Store"
  where
  "markContacted s now idString update =
     (case castObjectId idString of
        Inl e \<Rightarrow> (Inl e, s)
      | Inr oid \<Rightarrow>
          (case findById oid s of
             None \<Rightarrow> (Inr None, s)
           | Some d \<Rightarrow>
               (Inr (Some (mapDocument now (setContacted (contactedBy update) now d))),
                s\<lparr>feedbacks := updateFirst (\<lambda>d. d_id d = oid)
                                  (setContacted (contactedBy update) now) (feedbacks s)\<rparr>)))"

subsection \<open>getAnalytics\<close>

text \<open>Lines 209 to 304.\<close>

datatype Period = week | month

text \<open>
  \<open>setDate(getDate() - n)\<close> moves the start of the window back by \<open>n\<close> days of local
  time; the model takes a server clock without daylight-saving shifts, where that is
  \<open>n\<close> times 24 hours.
\<close>

definition startDate :: "Date \<Rightarrow> Period \<Rightarrow> Date" where
  "startDate now period = now - (if period = week then 7 else 30) * msPerDay"

text \<open>\<open>$unwind\<close> and \<open>$match\<close>: one row for each visit, with its document, inside the window.\<close>

definition unwind :: "IFeedback list \<Rightarrow> (IFeedback \<times> IVisit) list" where
  "unwind ds = concat (map (\<lambda>d. map (\<lambda>v. (d, v)) (visitsOf d)) ds)"

definition matchWindow :: "Date \<Rightarrow> (IFeedback \<times> IVisit) list \<Rightarrow> (IFeedback \<times> IVisit) list" where
  "matchWindow start rows = filter (\<lambda>(d, v). start \<le> v_createdAt v) rows"

record Stats =
  st_total :: int
  st_contacted :: int
  avgFoodQuality :: "rat option"
  avgFoodTaste :: "rat option"
  avgStaffBehavior :: "rat option"
  avgHygiene :: "rat option"
  avgAmbience :: "rat option"
  avgServiceSpeed :: "rat option"

text \<open>
  \<open>$group\<close> with \<open>_id: null\<close>: one group when there is a row, none otherwise. The
  accumulator \<open>$avg\<close> of the database is the parameter \<open>avgOp\<close>: it gets the numbers of
  the group in the order of the rows and gives their mean as the database computes it, a
  double, or null.
\<close>

definition groupAll ::
  "(rat list \<Rightarrow> rat option) \<Rightarrow> (IFeedback \<times> IVisit) list \<Rightarrow> Stats list" where
  "groupAll avgOp rows =
     (if rows = [] then []
      else [\<lparr>st_total = int (length rows),
             st_contacted = int (length (filter (\<lambda>(d, v). d_contactedAt d \<noteq> None) rows)),
             avgFoodQuality = avgOp (map (\<lambda>(d, v). foodQuality (v_ratings v)) rows),
             avgFoodTaste = avgOp (map (\<lambda>(d, v). foodTaste (v_ratings v)) rows),
             avgStaffBehavior = avgOp (map (\<lambda>(d, v). staffBehavior (v_ratings v)) rows),
             avgHygiene = avgOp (map (\<lambda>(d, v). hygiene (v_ratings v)) rows),
             avgAmbience = avgOp (map (\<lambda>(d, v). ambience (v_ratings v)) rows),
             avgServiceSpeed = avgOp (map (\<lambda>(d, v). serviceSpeed (v_ratings v)) rows)\<rparr>])"

definition noStats :: Stats where
  "noStats =
     \<lparr>st_total = 0, st_contacted = 0, avgFoodQuality = Some 0, avgFoodTaste = Some 0,
      avgStaffBehavior = Some 0, avgHygiene = Some 0, avgAmbience = Some 0,
      avgServiceSpeed = Some 0\<rparr>"

text \<open>\<open>x || 0\<close> on an average\<close>

definition orZero :: "rat option \<Rightarrow> rat" where
  "orZero x = (case x of None \<Rightarrow> 0 | Some q \<Rightarrow> if q = 0 then 0 else q)"

definition averages :: "Stats \<Rightarrow> (string \<times> rat) list" where
  "averages result =
     [(''foodQuality'', orZero (avgFoodQuality result)),
      (''foodTaste'', orZero (avgFoodTaste result)),
      (''staffBehavior'', orZero (avgStaffBehavior result)),
      (''hygiene'', orZero (avgHygiene result)),
      (''ambience'', orZero (avgAmbience result)),
      (''serviceSpeed'', orZero (avgServiceSpeed result))]"

text \<open>Lines 255 to 262: the loop over the entries, with \<open>(topCategory, maxVal)\<close> as its state.\<close>

fun pickTop :: "(string \<times> rat) list \<Rightarrow> string \<times> rat \<Rightarrow> string \<times> rat" where
  "pickTop [] acc = acc"
| "pickTop ((cat, val) # es) (topCategory, maxVal) =
     pickTop es (if val > maxVal then (cat, val) else (topCategory, maxVal))"

text \<open>\<open>replace(/([A-Z])/g, ' $1').trim().toLowerCase()\<close> on the ASCII names of the categories\<close>

definition spaceBeforeCapitals :: "string \<Rightarrow> string" where
  "spaceBeforeCapitals s = concat (map (\<lambda>c. if c \<in> set upperCase then [CHR '' '', c] else [c]) s)"

definition isSpace :: "char \<Rightarrow> bool" where
  "isSpace c = (c \<in> set [CHR '' '', CHR 0x09, CHR 0x0A, CHR 0x0B, CHR 0x0C, CHR 0x0D])"

definition trim :: "string \<Rightarrow> string" where
  "trim s = rev (dropWhile isSpace (rev (dropWhile isSpace s)))"

definition categoryLabel :: "string \<Rightarrow> string" where
  "categoryLabel cat = toLowerCase (trim (spaceBeforeCapitals cat))"

text \<open>
  The fields of the answer that are counts, names and means. \<open>averageRating\<close>,
  \<open>responseRate\<close> and \<open>weeklyTrends\<close> are left out: they round doubles once more
  (\<open>toFixed\<close>, \<open>Math.round\<close>).
\<close>

record AnalyticsData =
  totalFeedback :: int
  topCategory :: string
  categoryPerformance :: "(string \<times> rat option) list"
  feedbackVolume :: "(string \<times> int) list"

definition aggregate :: "(rat list \<Rightarrow> rat option) \<Rightarrow> Store \<Rightarrow> Date \<Rightarrow> Period \<Rightarrow> Stats" where
  "aggregate avgOp s now period =
     (case groupAll avgOp (matchWindow (startDate now period) (unwind (feedbacks s))) of
        [] \<Rightarrow> noStats
      | st # _ \<Rightarrow> st)"

definition getAnalytics ::
  "(rat list \<Rightarrow> rat option) \<Rightarrow> Store \<Rightarrow> Date \<Rightarrow> Period \<Rightarrow> AnalyticsData" where
  "getAnalytics avgOp s now period =
     (let result = aggregate avgOp s now period;
          avgs = averages result;
          (top, maxVal) = pickTop avgs (''foodQuality'', -1)
      in \<lparr>totalFeedback = st_total result,
          topCategory = categoryLabel top,
          categoryPerformance = map (\<lambda>cat. (cat, map_of avgs cat)) categories,
          feedbackVolume =
            [(''Contacted'', st_contacted result),
             (''Pending'', st_total result - st_contacted result)]\<rparr>)"

section \<open>Invariant, counts and means\<close>

text \<open>
  The data model asks that a Feedback holds at most one visit for a dateKey.
\<close>

definition oneVisitPerDay :: "Store \<Rightarrow> bool" where
  "oneVisitPerDay s = (\<forall>d \<in> set (feedbacks s). distinct (map v_dateKey (visitsOf d)))"

text \<open>
  What the analytics are compared with. The window of a period starts 7 or 30 days of
  86400000 milliseconds before the call. Inside it: the visits, those of them whose
  Feedback has been contacted, and the mean of one rating as \<open>$avg\<close> gives it (0 when
  the window is empty or \<open>$avg\<close> is null). Beside them, the Feedback documents that have
  been contacted.
\<close>

definition inWindowVisits :: "Store \<Rightarrow> Date \<Rightarrow> Period \<Rightarrow> IVisit list" where
  "inWindowVisits s now period =
     concat (map (\<lambda>d. filter (\<lambda>v. now - (if period = week then 7 else 30) * 86400000
                                      \<le> v_createdAt v) (visitsOf d))
               (feedbacks s))"

definition contactedInWindowVisits :: "Store \<Rightarrow> Date \<Rightarrow> Period \<Rightarrow> IVisit list" where
  "contactedInWindowVisits s now period =
     concat (map (\<lambda>d. if d_contactedAt d \<noteq> None
                       then filter (\<lambda>v. now - (if period = week then 7 else 30) * 86400000
                                         \<le> v_createdAt v) (visitsOf d)
                       else [])
               (feedbacks s))"

definition contactedDocuments :: "Store \<Rightarrow> IFeedback list" where
  "contactedDocuments s = filter (\<lambda>d. d_contactedAt d \<noteq> None) (feedbacks s)"


section \<open>Sample data\<close>

text \<open>The submission of the example scenario, and the same one with a rating of four and a half.\<close>

definition sampleRatings :: "(string \<times> json) list" where
  "sampleRatings =
     [(''foodQuality'', JNum 5), (''foodTaste'', JNum 4), (''staffBehavior'', JNum 5),
      (''hygiene'', JNum 5), (''ambience'', JNum 4), (''serviceSpeed'', JNum 5)]"

definition sampleFields :: "(string \<times> json) list" where
  "sampleFields =
     [(''name'', JStr ''A''), (''phoneNumber'', JStr ''9123456789''),
      (''location'', JStr ''Shree Rath''), (''dineType'', JStr ''dine_in''),
      (''ratings'', JObj sampleRatings)]"

definition sampleInput :: InsertFeedback where
  "sampleInput =
     \<lparr>in_name = ''A'', in_phoneNumber = ''9123456789'', in_location = ''Shree Rath'',
      in_dineType = dine_in,
      in_ratings = \<lparr>foodQuality = 5, foodTaste = 4, staffBehavior = 5, hygiene = 5,
                    ambience = 4, serviceSpeed = 5\<rparr>,
      in_note = [], in_staffName = [], in_staffComment = []\<rparr>"

definition halfStarBody :: json where
  "halfStarBody =
     JObj [(''name'', JStr ''A''), (''phoneNumber'', JStr ''9123456789''),
           (''location'', JStr ''Shree Rath''), (''dineType'', JStr ''dine_in''),
           (''ratings'',
            JObj [(''foodQuality'', JNum (9 / 2)), (''foodTaste'', JNum 4),
                  (''staffBehavior'', JNum 5), (''hygiene'', JNum 5), (''ambience'', JNum 4),
                  (''serviceSpeed'', JNum 5)])]"

text \<open>
  Three instants: 14 November 2023 at 22:13:20 UTC, one hour later, and one day later.
\<close>

definition dayOne :: Date where
  "dayOne = 1700000000000"

definition dayOneLater :: Date where
  "dayOneLater = 1700003600000"

definition dayTwo :: Date where
  "dayTwo = 1700086400000"

definition oidA :: ObjectId where
  "oidA = ''6553f10000000000000000a1''"

definition oidB :: ObjectId where
  "oidB = ''6553f10000000000000000b2''"

definition oidC :: ObjectId where
  "oidC = ''6553f10000000000000000c3''"

text \<open>
  The store after customer A has submitted on the first day, beside a document of the
  flat schema for another customer B, who has no card yet.
\<close>

definition firstDoc :: IFeedback where
  "firstDoc = newFeedback oidA sampleInput (newVisit dayOne sampleInput)"

definition firstCard :: ICustomerCard where
  "firstCard =
     \<lparr>c_phoneNumber = ''9123456789'', c_name = ''A'', c_totalVisits = 1,
      c_firstVisitDate = dayOne, c_lastVisitDate = dayOne, c_visits = [oidA]\<rparr>"

definition legacyDoc :: IFeedback where
  "legacyDoc =
     \<lparr>d_id = oidB, d_name = ''B'', d_phoneNumber = ''9876543210'',
      d_visits = Some [], d_contactedAt = None, d_contactedBy = None,
      d_location = Some ''Old Town'', d_dineType = None, d_ratings = None, d_note = None,
      d_staffName = None, d_staffComment = None, d_createdAt = Some dayOne,
      d_dateKey = None\<rparr>"

definition returningInput :: InsertFeedback where
  "returningInput = sampleInput\<lparr>in_name := ''B'', in_phoneNumber := ''9876543210''\<rparr>"

definition emptyStore :: Store where
  "emptyStore = \<lparr>feedbacks = [], customerCards = []\<rparr>"

definition sampleStore :: Store where
  "sampleStore = \<lparr>feedbacks = [firstDoc, legacyDoc], customerCards = [firstCard]\<rparr>"

text \<open>A customer with visits on both days, who has been contacted.\<close>

definition regularDoc :: IFeedback where
  "regularDoc =
     firstDoc\<lparr>d_visits := Some [newVisit dayOne sampleInput, newVisit dayTwo sampleInput],
              d_contactedAt := Some dayTwo, d_contactedBy := Some ''Ravi''\<rparr>"

definition contactedStore :: Store where
  "contactedStore = \<lparr>feedbacks = [regularDoc], customerCards = []\<rparr>"

definition dateFilters :: Filters where
  "dateFilters =
     \<lparr>q_page = 1, q_limit = 20, q_search = None, q_date = Some ''2023-11-14'',
      q_rating = None\<rparr>"

definition noSearch :: "string \<Rightarrow> string \<Rightarrow> bool" where
  "noSearch pat str = False"

text \<open>
  The id of customer A written in upper case, and a string that is no ObjectId.
\<close>

definition oidAUpper :: string where
  "oidAUpper = ''6553F10000000000000000A1''"

definition badId :: string where
  "badId = ''not-an-id''"

text \<open>
  The visit that the flat fields of customer B's document describe, and the visit that
  customer B submits on the second day, both as a response carries them.
\<close>

definition legacyFlatVisit :: Visit where
  "legacyFlatVisit =
     \<lparr>o_location = ''Old Town'', o_dineType = dine_in,
      o_ratings = SixRatings \<lparr>foodQuality = 5, foodTaste = 5, staffBehavior = 5, hygiene = 5,
                               ambience = 5, serviceSpeed = 5\<rparr>,
      o_note = [], o_staffName = [], o_staffComment = [],
      o_createdAt = ''2023-11-14T22:13:20.000Z'', o_dateKey = ''2023-11-14''\<rparr>"

definition submittedVisit :: Visit where
  "submittedVisit =
     \<lparr>o_location = ''Shree Rath'', o_dineType = dine_in,
      o_ratings = SixRatings \<lparr>foodQuality = 5, foodTaste = 4, staffBehavior = 5, hygiene = 5,
                               ambience = 4, serviceSpeed = 5\<rparr>,
      o_note = [], o_staffName = [], o_staffComment = [],
      o_createdAt = ''2023-11-15T22:13:20.000Z'', o_dateKey = ''2023-11-15''\<rparr>"

text \<open>
  The mean without rounding. On the sample stores it is what \<open>$avg\<close> gives: their
  windows hold one visit, or two visits of the same whole ratings.
\<close>

definition exactMean :: "rat list \<Rightarrow> rat option" where
  "exactMean xs = (if xs = [] then None else Some (sum_list xs / of_nat (length xs)))"



section \<open>The validator\<close>

lemma Inr_iff_not_isl: "(\<exists>y. x = Inr y) \<longleftrightarrow> \<not> isl x"
  by (cases x) auto

lemma isl_zodAp: "isl (zodAp a b) \<longleftrightarrow> isl a \<or> isl b"
  by (cases a; cases b) auto

lemma isl_zRating: "\<not> isl (zRating p v) \<longleftrightarrow> (\<exists>q. v = Some (JNum q) \<and> 1 \<le> q \<and> q \<le> 5)"
  by (auto simp: zRating_def split: option.splits json.splits if_splits)

lemma isl_zRatings_obj:
  "\<not> isl (zRatings p (Some (JObj rs))) \<longleftrightarrow>
     (\<forall>c \<in> set categories. \<not> isl (zRating (p @ [c]) (map_of rs c)))"
  by (simp add: zRatings_def isl_zodAp categories_def)

lemma isl_insertFeedbackSchema:
  "\<not> isl (insertFeedbackSchema (JObj kvs)) \<longleftrightarrow>
     (\<not> isl (zStringMin1 [''name''] (map_of kvs ''name'')) \<and>
      \<not> isl (zPhone [''phoneNumber''] (map_of kvs ''phoneNumber'')) \<and>
      \<not> isl (zStringMin1 [''location''] (map_of kvs ''location'')) \<and>
      \<not> isl (zDineType [''dineType''] (map_of kvs ''dineType'')) \<and>
      \<not> isl (zRatings [''ratings''] (map_of kvs ''ratings'')) \<and>
      \<not> isl (zNote [''note''] (map_of kvs ''note'')) \<and>
      \<not> isl (zStringDefault [''staffName''] (map_of kvs ''staffName'')) \<and>
      \<not> isl (zStringDefault [''staffComment''] (map_of kvs ''staffComment'')))"
  by (simp add: insertFeedbackSchema_def isl_zodAp)

lemmas validator_defs =
  insertFeedbackSchema_def zStringMin1_def zPhone_def tenDigits_def isDigit_def zDineType_def
  zRatings_def zRating_def zNote_def zStringDefault_def mkInsertFeedback_def mkRatings_def

lemma sampleBody_parses: "insertFeedbackSchema (JObj sampleFields) = Inr sampleInput"
  by (simp add: sampleFields_def sampleRatings_def sampleInput_def validator_defs)

lemma four_and_a_half_not_integer: "(9 / 2 :: rat) \<notin> \<int>"
proof
  assume "(9 / 2 :: rat) \<in> \<int>"
  then obtain z :: int where z: "(9 / 2 :: rat) = of_int z" by (rule Ints_cases)
  then have "of_int (2 * z) = (of_int 9 :: rat)" by simp
  then have "2 * z = 9" by (simp only: of_int_eq_iff)
  then show False by presburger
qed

text \<open>
  C5, as the code has it: a body that the validator accepts stays accepted, when one of
  its six ratings is replaced by a value \<open>v\<close>, exactly when \<open>v\<close> is a number between 1
  and 5, both included. So 0, 6 and a value that is not a number are rejected, 1 and 5 are
  accepted, and so is every fraction in between: the schema never asks for an integer.
\<close>

theorem insertFeedbackSchema_rating_range:
  assumes ok: "insertFeedbackSchema (JObj kvs) = Inr i"
    and rs: "map_of kvs ''ratings'' = Some (JObj rs)"
    and c: "c \<in> set categories"
  shows "(\<exists>i'. insertFeedbackSchema (JObj ((''ratings'', JObj ((c, v) # rs)) # kvs)) = Inr i')
         \<longleftrightarrow> (\<exists>q. v = JNum q \<and> 1 \<le> q \<and> q \<le> 5)"
proof -
  from ok have old: "\<not> isl (insertFeedbackSchema (JObj kvs))" by simp
  then have others: "\<forall>k \<in> set categories. \<not> isl (zRating ([''ratings''] @ [k]) (map_of rs k))"
    using rs by (simp add: isl_insertFeedbackSchema isl_zRatings_obj)
  have "\<not> isl (zRatings [''ratings''] (Some (JObj ((c, v) # rs))))
        \<longleftrightarrow> \<not> isl (zRating ([''ratings''] @ [c]) (Some v))"
    using others c unfolding isl_zRatings_obj by auto
  moreover have "\<not> isl (insertFeedbackSchema (JObj ((''ratings'', JObj ((c, v) # rs)) # kvs)))
        \<longleftrightarrow> \<not> isl (zRatings [''ratings''] (Some (JObj ((c, v) # rs))))"
    using old by (simp add: isl_insertFeedbackSchema)
  ultimately show ?thesis
    unfolding Inr_iff_not_isl by (simp add: isl_zRating)
qed

theorem insertFeedbackSchema_rating_range_witness:
  "insertFeedbackSchema (JObj sampleFields) = Inr sampleInput \<and>
   map_of sampleFields ''ratings'' = Some (JObj sampleRatings) \<and>
   ''hygiene'' \<in> set categories \<and>
   (\<exists>i'. insertFeedbackSchema
            (JObj ((''ratings'', JObj ((''hygiene'', JNum 1) # sampleRatings)) # sampleFields))
          = Inr i') \<and>
   \<not> (\<exists>i'. insertFeedbackSchema
              (JObj ((''ratings'', JObj ((''hygiene'', JNum 6) # sampleRatings)) # sampleFields))
            = Inr i')"
proof -
  have h1: "insertFeedbackSchema (JObj sampleFields) = Inr sampleInput"
    by (rule sampleBody_parses)
  have h2: "map_of sampleFields ''ratings'' = Some (JObj sampleRatings)"
    by (simp add: sampleFields_def)
  have h3: "''hygiene'' \<in> set categories"
    by (simp add: categories_def)
  show ?thesis
    using h1 h2 h3
      insertFeedbackSchema_rating_range [OF h1 h2 h3, of "JNum 1"]
      insertFeedbackSchema_rating_range [OF h1 h2 h3, of "JNum 6"]
    by simp
qed

text \<open>
  C5 as the specification words it fails: a rating of 4.5 is not an integer, and the
  validator accepts the submission that carries it.
\<close>

theorem insertFeedbackSchema_accepts_fraction:
  "insertFeedbackSchema halfStarBody =
     Inr (sampleInput\<lparr>in_ratings := (in_ratings sampleInput)\<lparr>foodQuality := 9 / 2\<rparr>\<rparr>) \<and>
   (9 / 2 :: rat) \<notin> \<int>"
  by (simp add: halfStarBody_def sampleInput_def validator_defs four_and_a_half_not_integer)

section \<open>Lists and sample values\<close>

lemma find_updateFirst:
  "find P xs = Some d \<Longrightarrow> P (f d) \<Longrightarrow> find P (updateFirst P f xs) = Some (f d)"
  by (induction xs) (auto split: if_splits)

lemma find_snoc:
  "find P xs = None \<Longrightarrow> find P (xs @ [y]) = (if P y then Some y else None)"
  by (induction xs) (auto split: if_splits)

lemma updateFirst_snoc:
  "find P xs = None \<Longrightarrow> updateFirst P f (xs @ [y]) = xs @ [if P y then f y else y]"
  by (induction xs) (auto split: if_splits)

lemma set_updateFirst: "set (updateFirst P f xs) \<subseteq> set xs \<union> f ` {x \<in> set xs. P x}"
  by (induction xs) auto

lemma find_Some_in: "find P xs = Some d \<Longrightarrow> d \<in> set xs \<and> P d"
  by (induction xs) (auto split: if_splits)

lemma find_None_iff_set: "find P xs = None \<longleftrightarrow> \<not> (\<exists>x \<in> set xs. P x)"
  by (induction xs) auto

lemma isoDate_dayOne: "isoDate dayOne = ''2023-11-14''"
  by code_simp

lemma isoDate_dayOneLater: "isoDate dayOneLater = ''2023-11-14''"
  by code_simp

lemma isoDate_dayTwo: "isoDate dayTwo = ''2023-11-15''"
  by code_simp

lemmas sample_defs =
  sampleStore_def emptyStore_def firstDoc_def firstCard_def legacyDoc_def sampleInput_def
  returningInput_def newFeedback_def newVisit_def visitsOf_def oidA_def oidB_def oidC_def

section \<open>createFeedback\<close>

lemma saveVisit_duplicate:
  assumes "find (\<lambda>d. d_phoneNumber d = in_phoneNumber i) fs = Some fb"
    and "\<exists>v \<in> set (visitsOf fb). v_dateKey v = isoDate now"
  shows "saveVisit now oid i fs = Inl alreadySubmitted"
  using assms by (auto simp: saveVisit_def Let_def list_ex_iff)

lemma one_of_distinct:
  "distinct (map g xs) \<Longrightarrow> \<exists>x \<in> set xs. g x = k \<Longrightarrow> length (filter (\<lambda>x. g x = k) xs) = 1"
proof (induction xs)
  case Nil
  then show ?case by simp
next
  case (Cons x xs)
  show ?case
  proof (cases "g x = k")
    case True
    from Cons.prems(1) have "g x \<notin> g ` set xs" by simp
    with True have "\<forall>y \<in> set xs. g y \<noteq> k" by blast
    then have "filter (\<lambda>x. g x = k) xs = []"
      by (simp add: filter_empty_conv)
    with True show ?thesis by simp
  next
    case False
    with Cons show ?thesis by auto
  qed
qed

text \<open>
  C1: when the Feedback of the phone number already holds a visit whose dateKey is today's
  UTC date, createFeedback fails with the error of code 11000 (the duplicate submission,
  which the route answers with 409) and leaves the whole store as it was: nothing is written
  to the Feedback or to the CustomerCard. A Feedback that held one visit for each of its
  dates still holds exactly one visit for today after the call.
\<close>

theorem createFeedback_duplicate:
  assumes found: "findFeedback (in_phoneNumber i) s = Some fb"
    and today: "\<exists>v \<in> set (visitsOf fb). v_dateKey v = isoDate now"
  shows "fst (createFeedback s now oid i) = Inl alreadySubmitted \<and>
         snd (createFeedback s now oid i) = s \<and>
         (distinct (map v_dateKey (visitsOf fb)) \<longrightarrow>
            (\<exists>fb'. findFeedback (in_phoneNumber i) (snd (createFeedback s now oid i)) = Some fb' \<and>
                   length (filter (\<lambda>v. v_dateKey v = isoDate now) (visitsOf fb')) = 1))"
proof -
  have dup: "saveVisit now oid i (feedbacks s) = Inl alreadySubmitted"
    using found today by (intro saveVisit_duplicate) (simp_all add: findFeedback_def)
  then have res: "createFeedback s now oid i = (Inl alreadySubmitted, s)"
    by (simp add: createFeedback_def)
  show ?thesis
    using res found today by (auto simp: one_of_distinct)
qed

theorem createFeedback_duplicate_witness:
  "findFeedback (in_phoneNumber sampleInput) sampleStore = Some firstDoc \<and>
   (\<exists>v \<in> set (visitsOf firstDoc). v_dateKey v = isoDate dayOneLater) \<and>
   distinct (map v_dateKey (visitsOf firstDoc)) \<and>
   fst (createFeedback sampleStore dayOneLater oidC sampleInput) = Inl alreadySubmitted \<and>
   snd (createFeedback sampleStore dayOneLater oidC sampleInput) = sampleStore \<and>
   (\<exists>fb'. findFeedback (in_phoneNumber sampleInput)
            (snd (createFeedback sampleStore dayOneLater oidC sampleInput)) = Some fb' \<and>
          length (filter (\<lambda>v. v_dateKey v = isoDate dayOneLater) (visitsOf fb')) = 1)"
proof -
  have h1: "findFeedback (in_phoneNumber sampleInput) sampleStore = Some firstDoc"
    by (simp add: findFeedback_def sample_defs)
  have h2: "\<exists>v \<in> set (visitsOf firstDoc). v_dateKey v = isoDate dayOneLater"
    by (simp add: sample_defs isoDate_dayOne isoDate_dayOneLater)
  have h3: "distinct (map v_dateKey (visitsOf firstDoc))"
    by (simp add: sample_defs)
  show ?thesis
    using createFeedback_duplicate [OF h1 h2, of oidC] h1 h2 h3 by blast
qed

text \<open>
  The stores that createFeedback builds keep the invariant of the data model, so the
  premise above on the dates of a Feedback holds in all of them.
\<close>

lemma saveVisit_distinct:
  assumes inv: "\<forall>d \<in> set fs. distinct (map v_dateKey (visitsOf d))"
    and ok: "saveVisit now oid i fs = Inr (fb, fs')"
  shows "\<forall>d \<in> set fs'. distinct (map v_dateKey (visitsOf d))"
proof (cases "find (\<lambda>d. d_phoneNumber d = in_phoneNumber i) fs")
  case None
  with ok have "fs' = fs @ [newFeedback oid i (newVisit now i)]"
    by (auto simp: saveVisit_def Let_def)
  with inv show ?thesis
    by (auto simp: newFeedback_def visitsOf_def)
next
  case (Some old)
  with ok have nodup: "\<not> list_ex (\<lambda>v. v_dateKey v = isoDate now) (visitsOf old)"
    and fs': "fs' = updateFirst (\<lambda>d. d_phoneNumber d = in_phoneNumber i)
                 (\<lambda>_. old\<lparr>d_visits := Some (visitsOf old @ [newVisit now i])\<rparr>) fs"
    by (auto simp: saveVisit_def Let_def split: if_splits)
  from Some have "old \<in> set fs" by (auto dest: find_Some_in)
  with inv have "distinct (map v_dateKey (visitsOf old))" by blast
  with nodup have new: "distinct (map v_dateKey
      (visitsOf (old\<lparr>d_visits := Some (visitsOf old @ [newVisit now i])\<rparr>)))"
    by (auto simp: visitsOf_def list_ex_iff newVisit_def)
  show ?thesis
  proof
    fix d assume "d \<in> set fs'"
    with fs' set_updateFirst [of "\<lambda>d. d_phoneNumber d = in_phoneNumber i"
        "\<lambda>_. old\<lparr>d_visits := Some (visitsOf old @ [newVisit now i])\<rparr>" fs]
    have "d \<in> set fs \<or> d = old\<lparr>d_visits := Some (visitsOf old @ [newVisit now i])\<rparr>"
      by auto
    with inv new show "distinct (map v_dateKey (visitsOf d))" by auto
  qed
qed

lemma createFeedback_oneVisitPerDay:
  assumes "oneVisitPerDay s"
  shows "oneVisitPerDay (snd (createFeedback s now oid i))"
proof (cases "saveVisit now oid i (feedbacks s)")
  case (Inl e)
  with assms show ?thesis by (simp add: createFeedback_def)
next
  case (Inr p)
  obtain fb fs where p: "p = (fb, fs)" by (cases p)
  with Inr assms have "\<forall>d \<in> set fs. distinct (map v_dateKey (visitsOf d))"
    by (auto simp: oneVisitPerDay_def dest: saveVisit_distinct)
  with Inr p show ?thesis
    by (simp add: createFeedback_def oneVisitPerDay_def split: prod.splits)
qed

lemma emptyStore_oneVisitPerDay: "oneVisitPerDay emptyStore"
  by (simp add: oneVisitPerDay_def emptyStore_def)

lemma saveVisit_new:
  assumes "find (\<lambda>d. d_phoneNumber d = in_phoneNumber i) fs = None"
  shows "saveVisit now oid i fs =
           Inr (newFeedback oid i (newVisit now i), fs @ [newFeedback oid i (newVisit now i)])"
  using assms by (simp add: saveVisit_def Let_def)

lemma saveVisit_append:
  assumes "find (\<lambda>d. d_phoneNumber d = in_phoneNumber i) fs = Some fb"
    and "\<not> list_ex (\<lambda>v. v_dateKey v = isoDate now) (visitsOf fb)"
  shows "saveVisit now oid i fs =
           Inr (fb\<lparr>d_visits := Some (visitsOf fb @ [newVisit now i])\<rparr>,
                updateFirst (\<lambda>d. d_phoneNumber d = in_phoneNumber i)
                  (\<lambda>_. fb\<lparr>d_visits := Some (visitsOf fb @ [newVisit now i])\<rparr>) fs)"
  using assms by (simp add: saveVisit_def Let_def)

lemma upsertCustomerCard_new:
  assumes "find (\<lambda>c. c_phoneNumber c = in_phoneNumber i) cs = None"
  shows "upsertCustomerCard now i fid cs =
           (\<lparr>c_phoneNumber = in_phoneNumber i, c_name = in_name i, c_totalVisits = 1,
             c_firstVisitDate = now, c_lastVisitDate = now, c_visits = [fid]\<rparr>,
            cs @ [\<lparr>c_phoneNumber = in_phoneNumber i, c_name = in_name i, c_totalVisits = 1,
                   c_firstVisitDate = now, c_lastVisitDate = now, c_visits = [fid]\<rparr>])"
  using assms by (simp add: upsertCustomerCard_def Let_def)

lemma upsertCustomerCard_old:
  assumes "find (\<lambda>c. c_phoneNumber c = in_phoneNumber i) cs = Some c"
  shows "\<exists>c'. upsertCustomerCard now i fid cs =
                 (c', updateFirst (\<lambda>c. c_phoneNumber c = in_phoneNumber i) (\<lambda>_. c') cs) \<and>
              c_phoneNumber c' = c_phoneNumber c \<and>
              c_totalVisits c' = c_totalVisits c + 1 \<and>
              c_lastVisitDate c' = now \<and>
              c_firstVisitDate c' = c_firstVisitDate c"
  using assms by (simp add: upsertCustomerCard_def Let_def)

text \<open>
  C4: for a phone number that has no Feedback and no CustomerCard yet, two submissions that
  the validator has accepted, made on two different UTC dates, both succeed. Afterwards the
  Feedback of the phone number holds the two visits, in that order, and its CustomerCard
  has totalVisits 2, the time of the second submission as lastVisitDate, and as
  firstVisitDate the one the first submission set, which is the time of the first
  submission.
\<close>

theorem createFeedback_two_dates:
  assumes valid1: "insertFeedbackSchema b1 = Inr i1"
    and valid2: "insertFeedbackSchema b2 = Inr i2"
    and p1: "in_phoneNumber i1 = p"
    and p2: "in_phoneNumber i2 = p"
    and freshF: "findFeedback p s = None"
    and freshC: "findCustomerCard p s = None"
    and dates: "isoDate t1 \<noteq> isoDate t2"
  shows "\<exists>r1 s1 r2 s2 fb c1 c2.
           createFeedback s t1 oid1 i1 = (Inr r1, s1) \<and>
           createFeedback s1 t2 oid2 i2 = (Inr r2, s2) \<and>
           findFeedback p s2 = Some fb \<and>
           d_visits fb = Some [newVisit t1 i1, newVisit t2 i2] \<and>
           f_visits (feedback r2) = [mapVisit (newVisit t1 i1), mapVisit (newVisit t2 i2)] \<and>
           findCustomerCard p s1 = Some c1 \<and>
           findCustomerCard p s2 = Some c2 \<and>
           c_totalVisits c2 = 2 \<and>
           c_lastVisitDate c2 = t2 \<and>
           c_firstVisitDate c2 = c_firstVisitDate c1 \<and>
           c_firstVisitDate c1 = t1 \<and>
           customerCard r2 = Some \<lparr>cv_totalVisits = 2, cv_firstVisitDate = toISOString t1,
                                    cv_lastVisitDate = toISOString t2\<rparr>"
proof -
  let ?P = "\<lambda>d. d_phoneNumber d = p"
  let ?Q = "\<lambda>c. c_phoneNumber c = p"
  let ?fb1 = "newFeedback oid1 i1 (newVisit t1 i1)"
  let ?c1 = "\<lparr>c_phoneNumber = p, c_name = in_name i1, c_totalVisits = 1,
              c_firstVisitDate = t1, c_lastVisitDate = t1, c_visits = [oid1]\<rparr>"
  let ?s1 = "\<lparr>feedbacks = feedbacks s @ [?fb1], customerCards = customerCards s @ [?c1]\<rparr>"
  have fF: "find ?P (feedbacks s) = None" and fC: "find ?Q (customerCards s) = None"
    using freshF freshC by (simp_all add: findFeedback_def findCustomerCard_def)
  have first: "createFeedback s t1 oid1 i1 =
      (Inr \<lparr>feedback = mapDocument t1 ?fb1, customerCard = Some (cardView ?c1)\<rparr>, ?s1)"
    using fF fC p1
    by (simp add: createFeedback_def saveVisit_new upsertCustomerCard_new newFeedback_def)
  have P1: "?P ?fb1" using p1 by (simp add: newFeedback_def)
  have find1: "find ?P (feedbacks ?s1) = Some ?fb1"
    using fF P1 by (simp add: find_snoc)
  have findc1: "find ?Q (customerCards ?s1) = Some ?c1"
    using fC by (simp add: find_snoc)
  have v1: "visitsOf ?fb1 = [newVisit t1 i1]"
    by (simp add: newFeedback_def visitsOf_def)
  have nodup: "\<not> list_ex (\<lambda>v. v_dateKey v = isoDate t2) (visitsOf ?fb1)"
    unfolding v1 using dates by (simp add: newVisit_def)
  let ?fb2 = "?fb1\<lparr>d_visits := Some [newVisit t1 i1, newVisit t2 i2]\<rparr>"
  let ?c2 = "?c1\<lparr>c_totalVisits := 2, c_lastVisitDate := t2\<rparr>"
  let ?s2 = "\<lparr>feedbacks = feedbacks s @ [?fb2], customerCards = customerCards s @ [?c2]\<rparr>"
  have save2: "saveVisit t2 oid2 i2 (feedbacks ?s1) = Inr (?fb2, feedbacks s @ [?fb2])"
    using find1 nodup fF P1 p2
    by (simp add: saveVisit_append [where fb = ?fb1] v1 updateFirst_snoc)
  have card2: "upsertCustomerCard t2 i2 (d_id ?fb2) (customerCards ?s1) =
      (?c2, customerCards s @ [?c2])"
    using findc1 fC p2
    by (simp add: upsertCustomerCard_def Let_def updateFirst_snoc newFeedback_def)
  have second: "createFeedback ?s1 t2 oid2 i2 =
      (Inr \<lparr>feedback = mapDocument t2 ?fb2, customerCard = Some (cardView ?c2)\<rparr>, ?s2)"
    using save2 card2 by (simp add: createFeedback_def)
  have find2: "findFeedback p ?s2 = Some ?fb2"
    using fF P1 by (simp add: findFeedback_def find_snoc newFeedback_def)
  have findc2: "findCustomerCard p ?s2 = Some ?c2"
    using fC by (simp add: findCustomerCard_def find_snoc)
  have mapped: "f_visits (mapDocument t2 ?fb2) = [mapVisit (newVisit t1 i1), mapVisit (newVisit t2 i2)]"
    by (simp add: mapDocument_def visitsOf_def newFeedback_def)
  show ?thesis
    using first second find2 findc2 mapped findc1
    by (simp add: findCustomerCard_def cardView_def)
qed

theorem createFeedback_two_dates_witness:
  "insertFeedbackSchema (JObj sampleFields) = Inr sampleInput \<and>
   in_phoneNumber sampleInput = ''9123456789'' \<and>
   findFeedback ''9123456789'' emptyStore = None \<and>
   findCustomerCard ''9123456789'' emptyStore = None \<and>
   isoDate dayOne \<noteq> isoDate dayTwo \<and>
   (\<exists>r1 s1 r2 s2.
      createFeedback emptyStore dayOne oidA sampleInput = (Inr r1, s1) \<and>
      createFeedback s1 dayTwo oidB sampleInput = (Inr r2, s2) \<and>
      length (f_visits (feedback r2)) = 2 \<and>
      customerCard r2 =
        Some \<lparr>cv_totalVisits = 2, cv_firstVisitDate = toISOString dayOne,
               cv_lastVisitDate = toISOString dayTwo\<rparr>)"
proof -
  have h1: "insertFeedbackSchema (JObj sampleFields) = Inr sampleInput"
    by (rule sampleBody_parses)
  have h2: "in_phoneNumber sampleInput = ''9123456789''"
    by (simp add: sampleInput_def)
  have h3: "findFeedback ''9123456789'' emptyStore = None"
    by (simp add: findFeedback_def emptyStore_def)
  have h4: "findCustomerCard ''9123456789'' emptyStore = None"
    by (simp add: findCustomerCard_def emptyStore_def)
  have h5: "isoDate dayOne \<noteq> isoDate dayTwo"
    by (simp add: isoDate_dayOne isoDate_dayTwo)
  from createFeedback_two_dates [OF h1 h1 h2 h2 h3 h4 h5, of oidA oidB]
  obtain r1 s1 r2 s2 where
    "createFeedback emptyStore dayOne oidA sampleInput = (Inr r1, s1)"
    "createFeedback s1 dayTwo oidB sampleInput = (Inr r2, s2)"
    "f_visits (feedback r2) =
       [mapVisit (newVisit dayOne sampleInput), mapVisit (newVisit dayTwo sampleInput)]"
    "customerCard r2 =
       Some \<lparr>cv_totalVisits = 2, cv_firstVisitDate = toISOString dayOne,
              cv_lastVisitDate = toISOString dayTwo\<rparr>"
    by blast
  then have "\<exists>r1 s1 r2 s2.
      createFeedback emptyStore dayOne oidA sampleInput = (Inr r1, s1) \<and>
      createFeedback s1 dayTwo oidB sampleInput = (Inr r2, s2) \<and>
      length (f_visits (feedback r2)) = 2 \<and>
      customerCard r2 =
        Some \<lparr>cv_totalVisits = 2, cv_firstVisitDate = toISOString dayOne,
               cv_lastVisitDate = toISOString dayTwo\<rparr>"
    by (intro exI [of _ r1] exI [of _ s1] exI [of _ r2] exI [of _ s2]) simp
  with h1 h2 h3 h4 h5 show ?thesis by blast
qed

section \<open>markContacted\<close>

lemma d_id_setContacted: "d_id (setContacted who t d) = d_id d"
  by (simp add: setContacted_def)

lemma objectIdSchema_iff:
  "objectIdSchema i \<longleftrightarrow> length i = 24 \<and> set i \<subseteq> set ''0123456789abcdefABCDEF''"
proof -
  have "isHexDigit = (\<lambda>c. c \<in> set ''0123456789abcdefABCDEF'')"
    by (rule ext) (rule isHexDigit_def)
  then show ?thesis
    by (simp only: objectIdSchema_def list_all_iff subset_eq)
qed

lemma markContacted_cast_error:
  "castObjectId i = Inl e \<Longrightarrow> markContacted s now i u = (Inl e, s)"
  by (simp add: markContacted_def)

lemma markContacted_not_found:
  "castObjectId i = Inr oid \<Longrightarrow> findById oid s = None \<Longrightarrow>
   markContacted s now i u = (Inr None, s)"
  by (simp add: markContacted_def)

lemma markContacted_found:
  "castObjectId i = Inr oid \<Longrightarrow> findById oid s = Some d \<Longrightarrow>
   markContacted s now i u =
     (Inr (Some (mapDocument now (setContacted (contactedBy u) now d))),
      s\<lparr>feedbacks := updateFirst (\<lambda>d. d_id d = oid)
                        (setContacted (contactedBy u) now) (feedbacks s)\<rparr>)"
  by (simp add: markContacted_def)

lemma findById_markContacted:
  assumes cast: "castObjectId i = Inr oid" and found: "findById oid s = Some d"
  shows "findById oid (snd (markContacted s now i u)) = Some (setContacted (contactedBy u) now d)"
proof -
  from found have "d_id d = oid"
    by (auto simp: findById_def dest: find_Some_in)
  then have "d_id (setContacted (contactedBy u) now d) = oid"
    by (simp add: d_id_setContacted)
  with found show ?thesis
    by (simp add: markContacted_found [OF cast found] findById_def find_updateFirst)
qed

lemma castObjectId_oidA: "castObjectId oidA = Inr oidA"
  by code_simp

lemma castObjectId_oidB: "castObjectId oidB = Inr oidB"
  by code_simp

lemma castObjectId_oidC: "castObjectId oidC = Inr oidC"
  by code_simp

lemma castObjectId_oidAUpper: "castObjectId oidAUpper = Inr oidA"
  by code_simp

lemma castObjectId_badId: "castObjectId badId = Inl CastError"
  by code_simp

lemma markContacted_contract_schema:
  "(fst (markContacted s now i u) = Inl CastError \<longleftrightarrow> \<not> objectIdSchema i) \<and>
   (fst (markContacted s now i u) = Inr None \<longleftrightarrow>
      objectIdSchema i \<and> \<not> (\<exists>d \<in> set (feedbacks s). d_id d = toLowerCase i)) \<and>
   (fst (markContacted s now i u) = Inl CastError \<or> fst (markContacted s now i u) = Inr None
      \<longrightarrow> snd (markContacted s now i u) = s) \<and>
   (\<forall>d. objectIdSchema i \<and> findById (toLowerCase i) s = Some d \<longrightarrow>
      (\<exists>d'. findById (toLowerCase i) (snd (markContacted s now i u)) = Some d' \<and>
            d_contactedBy d' = Some (contactedBy u) \<and>
            d_contactedAt d' = Some now \<and>
            fst (markContacted s now i u) = Inr (Some (mapDocument now d')) \<and>
            (\<exists>d''. findById (toLowerCase i)
                      (snd (markContacted (snd (markContacted s now i u)) now' i u'))
                    = Some d'' \<and>
                  d_contactedBy d'' = Some (contactedBy u') \<and>
                  d_contactedAt d'' = Some now')))"
proof (cases "objectIdSchema i")
  case False
  then have cast: "castObjectId i = Inl CastError"
    by (simp add: castObjectId_def)
  have "markContacted s now i u = (Inl CastError, s)"
    using cast by (rule markContacted_cast_error)
  with False show ?thesis
    by simp
next
  case True
  then have cast: "castObjectId i = Inr (toLowerCase i)"
    by (simp add: castObjectId_def)
  show ?thesis
  proof (cases "findById (toLowerCase i) s")
    case None
    then have "\<not> (\<exists>d \<in> set (feedbacks s). d_id d = toLowerCase i)"
      by (simp add: findById_def find_None_iff_set)
    moreover have "markContacted s now i u = (Inr None, s)"
      using cast None by (rule markContacted_not_found)
    ultimately show ?thesis
      using True None by simp
  next
    case (Some d)
    let ?d' = "setContacted (contactedBy u) now d"
    let ?s' = "snd (markContacted s now i u)"
    from Some have ex: "\<exists>d \<in> set (feedbacks s). d_id d = toLowerCase i"
      by (auto simp: findById_def dest: find_Some_in)
    have 1: "findById (toLowerCase i) ?s' = Some ?d'"
      using cast Some by (rule findById_markContacted)
    have 2: "findById (toLowerCase i) (snd (markContacted ?s' now' i u')) =
               Some (setContacted (contactedBy u') now' ?d')"
      using cast 1 by (rule findById_markContacted)
    have 3: "fst (markContacted s now i u) = Inr (Some (mapDocument now ?d'))"
      by (simp add: markContacted_found [OF cast Some])
    have "\<exists>d'. findById (toLowerCase i) ?s' = Some d' \<and>
            d_contactedBy d' = Some (contactedBy u) \<and>
            d_contactedAt d' = Some now \<and>
            fst (markContacted s now i u) = Inr (Some (mapDocument now d')) \<and>
            (\<exists>d''. findById (toLowerCase i) (snd (markContacted ?s' now' i u')) = Some d'' \<and>
                  d_contactedBy d'' = Some (contactedBy u') \<and>
                  d_contactedAt d'' = Some now')"
      using 1 2 3 by (simp add: setContacted_def)
    with True ex 3 Some show ?thesis
      by simp
  qed
qed

text \<open>
  C6, as the code has it: markContacted fails with a CastError, which the route answers
  with 500, exactly when the id is not a string of 24 hexadecimal digits. It returns
  nothing (the route answers NotFound) exactly when the id is such a string and no stored
  Feedback has it, read in lower case, as its id; in both cases the store stays as it
  was. On an id that a stored Feedback has, that Feedback then has the given name as
  contactedBy and the time of the call as contactedAt, and it is what the call returns; a
  second call on the same id leaves the name and the time of the second call, not those
  of the first.
\<close>

theorem markContacted_contract:
  "(fst (markContacted s now i u) = Inl CastError \<longleftrightarrow>
      \<not> (length i = 24 \<and> set i \<subseteq> set ''0123456789abcdefABCDEF'')) \<and>
   (fst (markContacted s now i u) = Inr None \<longleftrightarrow>
      (length i = 24 \<and> set i \<subseteq> set ''0123456789abcdefABCDEF'') \<and>
      \<not> (\<exists>d \<in> set (feedbacks s). d_id d = toLowerCase i)) \<and>
   (fst (markContacted s now i u) = Inl CastError \<or> fst (markContacted s now i u) = Inr None
      \<longrightarrow> snd (markContacted s now i u) = s) \<and>
   (\<forall>d. (length i = 24 \<and> set i \<subseteq> set ''0123456789abcdefABCDEF'') \<and>
        findById (toLowerCase i) s = Some d \<longrightarrow>
      (\<exists>d'. findById (toLowerCase i) (snd (markContacted s now i u)) = Some d' \<and>
            d_contactedBy d' = Some (contactedBy u) \<and>
            d_contactedAt d' = Some now \<and>
            fst (markContacted s now i u) = Inr (Some (mapDocument now d')) \<and>
            (\<exists>d''. findById (toLowerCase i)
                      (snd (markContacted (snd (markContacted s now i u)) now' i u'))
                    = Some d'' \<and>
                  d_contactedBy d'' = Some (contactedBy u') \<and>
                  d_contactedAt d'' = Some now')))"
  by (rule markContacted_contract_schema [unfolded objectIdSchema_iff])

theorem markContacted_contract_witness:
  "fst (markContacted sampleStore dayOneLater badId \<lparr>contactedBy = ''Ravi''\<rparr>) = Inl CastError \<and>
   fst (markContacted sampleStore dayOneLater oidC \<lparr>contactedBy = ''Ravi''\<rparr>) = Inr None \<and>
   findById (toLowerCase oidAUpper) sampleStore = Some firstDoc \<and>
   (\<exists>d''. findById (toLowerCase oidAUpper)
             (snd (markContacted
                     (snd (markContacted sampleStore dayOneLater oidAUpper
                             \<lparr>contactedBy = ''Ravi''\<rparr>))
                     dayTwo oidAUpper \<lparr>contactedBy = ''Meera''\<rparr>)) = Some d'' \<and>
          d_contactedBy d'' = Some ''Meera'' \<and> d_contactedAt d'' = Some dayTwo)"
proof -
  have schemaBad: "\<not> objectIdSchema badId"
    by code_simp
  have bad: "\<not> (length badId = 24 \<and> set badId \<subseteq> set ''0123456789abcdefABCDEF'')"
    by (rule schemaBad [unfolded objectIdSchema_iff])
  have schemaC: "objectIdSchema oidC"
    by code_simp
  have shapeC: "length oidC = 24 \<and> set oidC \<subseteq> set ''0123456789abcdefABCDEF''"
    by (rule schemaC [unfolded objectIdSchema_iff])
  have lowC: "toLowerCase oidC = oidC"
    by code_simp
  have noC: "\<not> (\<exists>d \<in> set (feedbacks sampleStore). d_id d = toLowerCase oidC)"
    unfolding lowC by (simp add: sample_defs)
  have schemaA: "objectIdSchema oidAUpper"
    by code_simp
  have shapeA: "length oidAUpper = 24 \<and> set oidAUpper \<subseteq> set ''0123456789abcdefABCDEF''"
    by (rule schemaA [unfolded objectIdSchema_iff])
  have lowA: "toLowerCase oidAUpper = oidA"
    by code_simp
  have foundA: "findById (toLowerCase oidAUpper) sampleStore = Some firstDoc"
    unfolding lowA by (simp add: findById_def sample_defs)
  note bad_case = markContacted_contract
            [of sampleStore dayOneLater badId "\<lparr>contactedBy = ''Ravi''\<rparr>" dayTwo
               "\<lparr>contactedBy = ''Meera''\<rparr>"]
  note new_case = markContacted_contract
            [of sampleStore dayOneLater oidC "\<lparr>contactedBy = ''Ravi''\<rparr>" dayTwo
               "\<lparr>contactedBy = ''Meera''\<rparr>"]
  note old_case = markContacted_contract
            [of sampleStore dayOneLater oidAUpper "\<lparr>contactedBy = ''Ravi''\<rparr>" dayTwo
               "\<lparr>contactedBy = ''Meera''\<rparr>"]
  have err: "fst (markContacted sampleStore dayOneLater badId \<lparr>contactedBy = ''Ravi''\<rparr>) =
      Inl CastError"
    using bad_case bad by blast
  have none: "fst (markContacted sampleStore dayOneLater oidC \<lparr>contactedBy = ''Ravi''\<rparr>) =
      Inr None"
    using new_case shapeC noC by blast
  have twice: "\<exists>d''. findById (toLowerCase oidAUpper)
             (snd (markContacted
                     (snd (markContacted sampleStore dayOneLater oidAUpper
                             \<lparr>contactedBy = ''Ravi''\<rparr>))
                     dayTwo oidAUpper \<lparr>contactedBy = ''Meera''\<rparr>)) = Some d'' \<and>
          d_contactedBy d'' = Some ''Meera'' \<and> d_contactedAt d'' = Some dayTwo"
  proof -
    from old_case shapeA foundA obtain d' where
      "\<exists>d''. findById (toLowerCase oidAUpper)
             (snd (markContacted
                     (snd (markContacted sampleStore dayOneLater oidAUpper
                             \<lparr>contactedBy = ''Ravi''\<rparr>))
                     dayTwo oidAUpper \<lparr>contactedBy = ''Meera''\<rparr>)) = Some d'' \<and>
          d_contactedBy d'' = Some (contactedBy \<lparr>contactedBy = ''Meera''\<rparr>) \<and>
          d_contactedAt d'' = Some dayTwo"
      by blast
    then show ?thesis by simp
  qed
  from err none foundA twice show ?thesis by blast
qed

text \<open>
  C6 as the specification words it fails: no stored Feedback has the id \<open>not-an-id\<close>,
  and markContacted does not return NotFound for it, but fails with a CastError.
\<close>

theorem markContacted_malformed_id:
  "badId \<notin> set (map d_id (feedbacks sampleStore)) \<and>
   fst (markContacted sampleStore dayTwo badId \<lparr>contactedBy = ''Ravi''\<rparr>) = Inl CastError \<and>
   fst (markContacted sampleStore dayTwo badId \<lparr>contactedBy = ''Ravi''\<rparr>) \<noteq> Inr None"
proof -
  have r: "markContacted sampleStore dayTwo badId \<lparr>contactedBy = ''Ravi''\<rparr> =
      (Inl CastError, sampleStore)"
    using castObjectId_badId by (rule markContacted_cast_error)
  have "badId \<notin> set (map d_id (feedbacks sampleStore))"
    by (simp add: sample_defs badId_def)
  with r show ?thesis by simp
qed

lemma updateFirst_frame:
  "list_all2 (\<lambda>x y. y = x \<or> (P x \<and> y = f x)) xs (updateFirst P f xs)"
  by (induction xs) (auto simp: list_all2_same list.rel_refl)

text \<open>
  C10: markContacted leaves the CustomerCards as they were and the Feedback collection
  document by document: a document whose id is not the one that the given id casts to is
  unchanged, and the document it updates differs from what was stored in contactedBy and
  contactedAt alone, so its name, phoneNumber and visits are those stored before.
\<close>

theorem markContacted_frame:
  "customerCards (snd (markContacted s now i u)) = customerCards s \<and>
   list_all2
     (\<lambda>d d'. (castObjectId i \<noteq> Inr (d_id d) \<longrightarrow> d' = d) \<and>
             d' = d\<lparr>d_contactedBy := d_contactedBy d', d_contactedAt := d_contactedAt d'\<rparr>)
     (feedbacks s) (feedbacks (snd (markContacted s now i u)))"
proof (cases "castObjectId i")
  case (Inl e)
  then show ?thesis
    by (simp add: markContacted_cast_error list.rel_refl)
next
  case (Inr oid)
  show ?thesis
  proof (cases "findById oid s")
    case None
    then show ?thesis
      by (simp add: markContacted_not_found [OF Inr] list.rel_refl)
  next
    case (Some d)
    have "list_all2 (\<lambda>x y. y = x \<or> (d_id x = oid \<and> y = setContacted (contactedBy u) now x))
            (feedbacks s)
            (updateFirst (\<lambda>d. d_id d = oid) (setContacted (contactedBy u) now) (feedbacks s))"
      by (rule updateFirst_frame)
    then have "list_all2
       (\<lambda>d d'. (castObjectId i \<noteq> Inr (d_id d) \<longrightarrow> d' = d) \<and>
               d' = d\<lparr>d_contactedBy := d_contactedBy d', d_contactedAt := d_contactedAt d'\<rparr>)
       (feedbacks s)
       (updateFirst (\<lambda>d. d_id d = oid) (setContacted (contactedBy u) now) (feedbacks s))"
      by (rule list_all2_mono) (auto simp: setContacted_def Inr)
    then show ?thesis
      by (simp add: markContacted_found [OF Inr Some])
  qed
qed

theorem markContacted_frame_witness:
  "castObjectId oidA \<noteq> Inr (d_id legacyDoc) \<and>
   customerCards (snd (markContacted sampleStore dayTwo oidA \<lparr>contactedBy = ''Ravi''\<rparr>)) =
     [firstCard] \<and>
   feedbacks (snd (markContacted sampleStore dayTwo oidA \<lparr>contactedBy = ''Ravi''\<rparr>)) =
     [firstDoc\<lparr>d_contactedBy := Some ''Ravi'', d_contactedAt := Some dayTwo\<rparr>, legacyDoc]"
proof -
  let ?s' = "snd (markContacted sampleStore dayTwo oidA \<lparr>contactedBy = ''Ravi''\<rparr>)"
  note frame = markContacted_frame [of sampleStore dayTwo oidA "\<lparr>contactedBy = ''Ravi''\<rparr>"]
  have h: "castObjectId oidA \<noteq> Inr (d_id legacyDoc)"
    by (simp add: castObjectId_oidA) (simp add: sample_defs)
  have cards: "customerCards ?s' = [firstCard]"
    using frame by (simp add: sampleStore_def)
  have found: "findById oidA sampleStore = Some firstDoc"
    by (simp add: findById_def sample_defs)
  have docs: "feedbacks ?s' =
      [firstDoc\<lparr>d_contactedBy := Some ''Ravi'', d_contactedAt := Some dayTwo\<rparr>, legacyDoc]"
    by (simp add: markContacted_found [OF castObjectId_oidA found])
       (simp add: sample_defs setContacted_def)
  from frame have "list_all2
     (\<lambda>d d'. (castObjectId oidA \<noteq> Inr (d_id d) \<longrightarrow> d' = d) \<and>
             d' = d\<lparr>d_contactedBy := d_contactedBy d', d_contactedAt := d_contactedAt d'\<rparr>)
     [firstDoc, legacyDoc]
     [firstDoc\<lparr>d_contactedBy := Some ''Ravi'', d_contactedAt := Some dayTwo\<rparr>, legacyDoc]"
    by (simp only: docs) (simp add: sampleStore_def)
  with h cards docs show ?thesis
    by simp
qed

section \<open>getFeedback\<close>

lemma mset_insertDesc: "mset (insertDesc x ys) = add_mset x (mset ys)"
  by (induction ys) auto

lemma mset_sortDesc: "mset (sortDesc xs) = mset xs"
  by (induction xs) (auto simp: sortDesc_def mset_insertDesc)

lemma set_sortDesc: "set (sortDesc xs) = set xs"
  using mset_sortDesc [of xs] by (metis set_mset_mset)

lemma length_sortDesc: "length (sortDesc xs) = length xs"
  using mset_sortDesc [of xs] by (metis size_mset)

lemma o_dateKey_mapVisit: "o_dateKey (mapVisit v) = v_dateKey v"
  by (simp add: mapVisit_def)

lemma onlyDate_mapDocument:
  assumes "hasVisitOn k d"
  shows "onlyDate k (mapDocument now d) =
           (mapDocument now d)\<lparr>f_visits := map mapVisit (filter (\<lambda>v. v_dateKey v = k) (visitsOf d))\<rparr>"
    and "f_visits (onlyDate k (mapDocument now d)) \<noteq> []"
proof -
  from assms obtain v where v: "v \<in> set (visitsOf d)" "v_dateKey v = k"
    by (auto simp: hasVisitOn_def list_ex_iff)
  then have ne: "visitsOf d \<noteq> []" by auto
  then have fv: "f_visits (mapDocument now d) = map mapVisit (visitsOf d)"
    by (simp add: mapDocument_def)
  have fm: "filter (\<lambda>v. o_dateKey v = k) (map mapVisit (visitsOf d)) =
            map mapVisit (filter (\<lambda>v. v_dateKey v = k) (visitsOf d))"
    by (simp add: filter_map comp_def o_dateKey_mapVisit)
  show "onlyDate k (mapDocument now d) =
           (mapDocument now d)\<lparr>f_visits := map mapVisit (filter (\<lambda>v. v_dateKey v = k) (visitsOf d))\<rparr>"
    by (simp add: onlyDate_def fv fm)
  from v have "filter (\<lambda>v. v_dateKey v = k) (visitsOf d) \<noteq> []"
    by (auto simp: filter_empty_conv)
  then show "f_visits (onlyDate k (mapDocument now d)) \<noteq> []"
    by (simp add: onlyDate_def fv fm)
qed

lemma filteredResults_dated:
  assumes date: "q_date f = Some k" and k: "k \<noteq> []"
  shows "filteredResults rx s now f =
           map (\<lambda>d. (mapDocument now d)\<lparr>f_visits := map mapVisit (filter (\<lambda>v. v_dateKey v = k) (visitsOf d))\<rparr>)
             (sortDesc (filter (queryMatches rx f) (feedbacks s)))"
proof -
  let ?docs = "sortDesc (filter (queryMatches rx f) (feedbacks s))"
  have tr: "truthy (q_date f)" and oe: "orEmpty (q_date f) = k"
    using date k by (simp_all add: truthy_def orEmpty_def)
  have all: "\<forall>d \<in> set ?docs. hasVisitOn k d"
    using tr oe by (auto simp: set_sortDesc queryMatches_def)
  have 1: "map (onlyDate k) (map (mapDocument now) ?docs) =
           map (\<lambda>d. (mapDocument now d)\<lparr>f_visits := map mapVisit (filter (\<lambda>v. v_dateKey v = k) (visitsOf d))\<rparr>) ?docs"
    using all by (simp add: onlyDate_mapDocument(1))
  have 2: "\<forall>fb \<in> set (map (onlyDate k) (map (mapDocument now) ?docs)). 0 < length (f_visits fb)"
    using all by (auto simp: onlyDate_mapDocument(2))
  have "filter (\<lambda>fb. 0 < length (f_visits fb)) (map (onlyDate k) (map (mapDocument now) ?docs))
        = map (onlyDate k) (map (mapDocument now) ?docs)"
    using 2 by (simp only: filter_id_conv)
  then show ?thesis
    using tr oe 1 by (simp add: filteredResults_def)
qed

text \<open>
  C3: with a date filter \<open>k\<close>, the result list of getFeedback holds exactly the stored
  documents that match the search and have a visit of dateKey \<open>k\<close>, each once, each with
  its visits cut down to those of dateKey \<open>k\<close>; the page is a slice of that list and
  the total is its length. Without a date filter the total is the number of stored
  documents that match the query, whatever the page.
\<close>

theorem getFeedback_date_filter:
  "(\<forall>k. q_date f = Some k \<and> k \<noteq> [] \<longrightarrow>
      mset (filteredResults rx s now f) =
        image_mset
          (\<lambda>d. (mapDocument now d)\<lparr>f_visits :=
                   map mapVisit (filter (\<lambda>v. v_dateKey v = k) (visitsOf d))\<rparr>)
          (filter_mset
             (\<lambda>d. (truthy (q_search f) \<longrightarrow> searchMatches rx (orEmpty (q_search f)) d) \<and>
                   (\<exists>v \<in> set (visitsOf d). v_dateKey v = k))
             (mset (feedbacks s))) \<and>
      r_data (getFeedback rx s now f) =
        jsSlice ((q_page f - 1) * q_limit f) ((q_page f - 1) * q_limit f + q_limit f)
          (filteredResults rx s now f) \<and>
      r_total (getFeedback rx s now f) = length (filteredResults rx s now f)) \<and>
   (\<not> truthy (q_date f) \<longrightarrow>
      r_total (getFeedback rx s now f) = length (filter (queryMatches rx f) (feedbacks s)))"
proof (intro conjI allI impI)
  fix k assume a: "q_date f = Some k \<and> k \<noteq> []"
  then have date: "q_date f = Some k" and k: "k \<noteq> []" by simp_all
  have tr: "truthy (q_date f)" and oe: "orEmpty (q_date f) = k"
    using date k by (simp_all add: truthy_def orEmpty_def)
  have qm: "queryMatches rx f =
      (\<lambda>d. (truthy (q_search f) \<longrightarrow> searchMatches rx (orEmpty (q_search f)) d) \<and>
            (\<exists>v \<in> set (visitsOf d). v_dateKey v = k))"
    using tr oe by (auto simp: queryMatches_def hasVisitOn_def list_ex_iff fun_eq_iff)
  show "mset (filteredResults rx s now f) =
        image_mset
          (\<lambda>d. (mapDocument now d)\<lparr>f_visits :=
                   map mapVisit (filter (\<lambda>v. v_dateKey v = k) (visitsOf d))\<rparr>)
          (filter_mset
             (\<lambda>d. (truthy (q_search f) \<longrightarrow> searchMatches rx (orEmpty (q_search f)) d) \<and>
                   (\<exists>v \<in> set (visitsOf d). v_dateKey v = k))
             (mset (feedbacks s)))"
    unfolding filteredResults_dated [OF date k] mset_map mset_sortDesc mset_filter qm ..
  show "r_data (getFeedback rx s now f) =
        jsSlice ((q_page f - 1) * q_limit f) ((q_page f - 1) * q_limit f + q_limit f)
          (filteredResults rx s now f)"
    by (simp add: getFeedback_def Let_def)
  show "r_total (getFeedback rx s now f) = length (filteredResults rx s now f)"
    using tr by (simp add: getFeedback_def Let_def)
next
  assume "\<not> truthy (q_date f)"
  then show "r_total (getFeedback rx s now f) = length (filter (queryMatches rx f) (feedbacks s))"
    by (simp add: getFeedback_def Let_def countDocuments_def)
qed

lemma sampleStore_dated:
  "length (filteredResults noSearch sampleStore dayTwo dateFilters) = 1"
  by code_simp

theorem getFeedback_date_filter_witness:
  "q_date dateFilters = Some ''2023-11-14'' \<and> ''2023-11-14'' \<noteq> [] \<and>
   r_total (getFeedback noSearch sampleStore dayTwo dateFilters) = 1 \<and>
   \<not> truthy (q_date (dateFilters\<lparr>q_date := None\<rparr>)) \<and>
   r_total (getFeedback noSearch sampleStore dayTwo (dateFilters\<lparr>q_date := None\<rparr>)) = 2"
proof -
  have h1: "q_date dateFilters = Some ''2023-11-14'' \<and> ''2023-11-14'' \<noteq> []"
    by (simp add: dateFilters_def)
  have h2: "\<not> truthy (q_date (dateFilters\<lparr>q_date := None\<rparr>))"
    by (simp add: truthy_def)
  have "r_total (getFeedback noSearch sampleStore dayTwo dateFilters) =
          length (filteredResults noSearch sampleStore dayTwo dateFilters)"
    using getFeedback_date_filter [of dateFilters noSearch sampleStore dayTwo] h1 by blast
  then have t1: "r_total (getFeedback noSearch sampleStore dayTwo dateFilters) = 1"
    by (simp add: sampleStore_dated)
  have "r_total (getFeedback noSearch sampleStore dayTwo (dateFilters\<lparr>q_date := None\<rparr>)) =
          length (filter (queryMatches noSearch (dateFilters\<lparr>q_date := None\<rparr>))
                    (feedbacks sampleStore))"
    using getFeedback_date_filter [of "dateFilters\<lparr>q_date := None\<rparr>" noSearch sampleStore dayTwo]
      h2 by blast
  then have t2:
    "r_total (getFeedback noSearch sampleStore dayTwo (dateFilters\<lparr>q_date := None\<rparr>)) = 2"
    by (simp add: queryMatches_def truthy_def dateFilters_def sampleStore_def)
  from h1 h2 t1 t2 show ?thesis by simp
qed

text \<open>
  C8: two calls of getFeedback whose filters agree on page, limit, search and date return
  the same data and the same total, whatever the two rating fields hold: the rating that
  the route parses takes no part in the result.
\<close>

theorem getFeedback_ignores_rating:
  assumes "q_page f = q_page g" and "q_limit f = q_limit g"
    and "q_search f = q_search g" and "q_date f = q_date g"
  shows "getFeedback rx s now f = getFeedback rx s now g"
proof -
  have "queryMatches rx f = queryMatches rx g"
    using assms by (simp add: queryMatches_def fun_eq_iff)
  then show ?thesis
    using assms by (simp add: getFeedback_def filteredResults_def countDocuments_def Let_def)
qed

theorem getFeedback_ignores_rating_witness:
  "q_page (dateFilters\<lparr>q_rating := Some 5\<rparr>) = q_page dateFilters \<and>
   q_limit (dateFilters\<lparr>q_rating := Some 5\<rparr>) = q_limit dateFilters \<and>
   q_search (dateFilters\<lparr>q_rating := Some 5\<rparr>) = q_search dateFilters \<and>
   q_date (dateFilters\<lparr>q_rating := Some 5\<rparr>) = q_date dateFilters \<and>
   q_rating (dateFilters\<lparr>q_rating := Some 5\<rparr>) \<noteq> q_rating dateFilters \<and>
   getFeedback noSearch sampleStore dayTwo (dateFilters\<lparr>q_rating := Some 5\<rparr>) =
     getFeedback noSearch sampleStore dayTwo dateFilters"
  using getFeedback_ignores_rating
          [of "dateFilters\<lparr>q_rating := Some 5\<rparr>" dateFilters noSearch sampleStore dayTwo]
  by (simp add: dateFilters_def)

section \<open>mapDocument on a document of the flat schema\<close>

lemma jsSlice_all: "int (length xs) \<le> n \<Longrightarrow> jsSlice 0 n xs = xs"
  by (simp add: jsSlice_def Let_def min_def)

lemma set_jsSlice: "set (jsSlice a b xs) \<subseteq> set xs"
  unfolding jsSlice_def Let_def
  by (meson set_take_subset set_drop_subset subset_trans)

lemma legacyVisit_setContacted: "legacyVisit now (setContacted who t d) = legacyVisit now d"
  by (simp add: legacyVisit_def setContacted_def)

lemma filteredResults_undated:
  "\<not> truthy (q_date f) \<Longrightarrow>
   filteredResults rx s now f =
     map (mapDocument now) (sortDesc (filter (queryMatches rx f) (feedbacks s)))"
  by (simp add: filteredResults_def)

lemma toISOString_dayOne: "toISOString dayOne = ''2023-11-14T22:13:20.000Z''"
  by code_simp

lemma toISOString_dayTwo: "toISOString dayTwo = ''2023-11-15T22:13:20.000Z''"
  by code_simp

text \<open>
  C9, as the code has it: a stored document without visits and with a non-empty flat
  location is mapped to a Feedback with a single visit, and that visit is built from the
  flat fields: its location is the flat location; its dineType, note, staffName and
  staffComment are the flat ones, or dine_in and the empty string; its ratings are the
  flat ratings object, or six times 5 when there is none; its createdAt is the flat one, or
  the time of the call; its dateKey is the flat one, or the date of its createdAt.
  markContacted returns the document so, and so does getFeedback without a date filter;
  with a date filter the query never selects such a document. createFeedback does not: it
  appends the new visit first, and its answer holds that visit alone.
\<close>

theorem mapDocument_legacy:
  assumes novisits: "visitsOf d = []"
    and loc: "d_location d = Some l" and l: "l \<noteq> []"
    and created: "t = (case d_createdAt d of None \<Rightarrow> now | Some c \<Rightarrow> c)"
    and v: "v =
      \<lparr>o_location = l,
       o_dineType = (case d_dineType d of None \<Rightarrow> dine_in | Some x \<Rightarrow> x),
       o_ratings =
         (case d_ratings d of
            None \<Rightarrow> SixRatings \<lparr>foodQuality = 5, foodTaste = 5, staffBehavior = 5, hygiene = 5,
                                  ambience = 5, serviceSpeed = 5\<rparr>
          | Some r \<Rightarrow> r),
       o_note = (case d_note d of None \<Rightarrow> [] | Some x \<Rightarrow> x),
       o_staffName = (case d_staffName d of None \<Rightarrow> [] | Some x \<Rightarrow> x),
       o_staffComment = (case d_staffComment d of None \<Rightarrow> [] | Some x \<Rightarrow> x),
       o_createdAt = toISOString t,
       o_dateKey =
         (case d_dateKey d of
            None \<Rightarrow> isoDate t
          | Some k \<Rightarrow> if k = [] then isoDate t else k)\<rparr>"
  shows "f_visits (mapDocument now d) = [v] \<and>
         (\<not> truthy (q_date f) \<longrightarrow>
            set (r_data (getFeedback rx s now f)) \<subseteq> mapDocument now ` set (feedbacks s) \<and>
            (d \<in> set (feedbacks s) \<and> queryMatches rx f d \<and> q_page f = 1 \<and>
             int (length (feedbacks s)) \<le> q_limit f \<longrightarrow>
               (\<exists>fb \<in> set (r_data (getFeedback rx s now f)).
                  fb = mapDocument now d \<and> f_visits fb = [v]))) \<and>
         (truthy (q_date f) \<longrightarrow> \<not> queryMatches rx f d) \<and>
         (castObjectId i = Inr (d_id d) \<and> findById (d_id d) s = Some d \<longrightarrow>
            (\<exists>fb. fst (markContacted s now i u) = Inr (Some fb) \<and> f_visits fb = [v])) \<and>
         (findFeedback (in_phoneNumber inp) s = Some d \<longrightarrow>
            (\<exists>r s'. createFeedback s now oid' inp = (Inr r, s') \<and>
                    f_visits (feedback r) = [mapVisit (newVisit now inp)]))"
proof (intro conjI impI)
  have tr: "truthy (d_location d)"
    using loc l by (simp add: truthy_def)
  have lv: "legacyVisit now d = v"
    unfolding v created using loc
    by (simp add: legacyVisit_def orEmpty_def truthy_def defaultRatings_def
        split: option.splits)
  show 1: "f_visits (mapDocument now d) = [v]"
    using novisits tr by (simp add: mapDocument_def lv)
  show "set (r_data (getFeedback rx s now f)) \<subseteq> mapDocument now ` set (feedbacks s)"
    if nd: "\<not> truthy (q_date f)"
  proof -
    have "set (r_data (getFeedback rx s now f)) \<subseteq> set (filteredResults rx s now f)"
      by (simp add: getFeedback_def Let_def set_jsSlice)
    also have "\<dots> \<subseteq> mapDocument now ` set (feedbacks s)"
      using nd by (auto simp: filteredResults_undated set_sortDesc)
    finally show ?thesis .
  qed
  show "\<exists>fb \<in> set (r_data (getFeedback rx s now f)). fb = mapDocument now d \<and> f_visits fb = [v]"
    if nd: "\<not> truthy (q_date f)"
      and h: "d \<in> set (feedbacks s) \<and> queryMatches rx f d \<and> q_page f = 1 \<and>
              int (length (feedbacks s)) \<le> q_limit f"
  proof -
    let ?docs = "sortDesc (filter (queryMatches rx f) (feedbacks s))"
    have "length ?docs \<le> length (feedbacks s)"
      by (simp add: length_sortDesc)
    with h have "int (length (map (mapDocument now) ?docs)) \<le> q_limit f" by simp
    then have "jsSlice 0 (q_limit f) (map (mapDocument now) ?docs) = map (mapDocument now) ?docs"
      by (rule jsSlice_all)
    then have "r_data (getFeedback rx s now f) = map (mapDocument now) ?docs"
      using nd h by (simp add: getFeedback_def Let_def filteredResults_undated)
    moreover have "d \<in> set ?docs" using h by (simp add: set_sortDesc)
    ultimately have "mapDocument now d \<in> set (r_data (getFeedback rx s now f))" by simp
    with 1 show ?thesis by blast
  qed
  show "\<not> queryMatches rx f d" if "truthy (q_date f)"
    using that novisits by (simp add: queryMatches_def hasVisitOn_def)
  show "\<exists>fb. fst (markContacted s now i u) = Inr (Some fb) \<and> f_visits fb = [v]"
    if h: "castObjectId i = Inr (d_id d) \<and> findById (d_id d) s = Some d"
  proof -
    have "visitsOf (setContacted (contactedBy u) now d) = []"
      using novisits by (simp add: visitsOf_def setContacted_def)
    moreover have "truthy (d_location (setContacted (contactedBy u) now d))"
      using tr by (simp add: setContacted_def)
    ultimately have "f_visits (mapDocument now (setContacted (contactedBy u) now d)) = [v]"
      by (simp add: mapDocument_def legacyVisit_setContacted lv)
    moreover have "fst (markContacted s now i u) =
        Inr (Some (mapDocument now (setContacted (contactedBy u) now d)))"
      using h by (simp add: markContacted_found)
    ultimately show ?thesis by simp
  qed
  show "\<exists>r s'. createFeedback s now oid' inp = (Inr r, s') \<and>
               f_visits (feedback r) = [mapVisit (newVisit now inp)]"
    if "findFeedback (in_phoneNumber inp) s = Some d"
  proof -
    let ?fb = "d\<lparr>d_visits := Some (visitsOf d @ [newVisit now inp])\<rparr>"
    have "saveVisit now oid' inp (feedbacks s) =
            Inr (?fb, updateFirst (\<lambda>d. d_phoneNumber d = in_phoneNumber inp) (\<lambda>_. ?fb)
                        (feedbacks s))"
      using that novisits by (simp add: saveVisit_def Let_def findFeedback_def)
    moreover have "f_visits (mapDocument now ?fb) = [mapVisit (newVisit now inp)]"
      using novisits by (simp add: mapDocument_def visitsOf_def)
    ultimately show ?thesis
      by (simp add: createFeedback_def split: prod.splits)
  qed
qed

theorem mapDocument_legacy_witness:
  "visitsOf legacyDoc = [] \<and> d_location legacyDoc = Some ''Old Town'' \<and>
   f_visits (mapDocument dayTwo legacyDoc) = [legacyFlatVisit] \<and>
   castObjectId oidB = Inr (d_id legacyDoc) \<and>
   findById (d_id legacyDoc) sampleStore = Some legacyDoc \<and>
   (\<exists>fb. fst (markContacted sampleStore dayTwo oidB \<lparr>contactedBy = ''Ravi''\<rparr>) = Inr (Some fb) \<and>
         f_visits fb = [legacyFlatVisit])"
proof -
  have h1: "visitsOf legacyDoc = []"
    by (simp add: sample_defs)
  have h2: "d_location legacyDoc = Some ''Old Town''"
    by (simp add: sample_defs)
  have h3: "''Old Town'' \<noteq> []"
    by simp
  have h4: "dayOne = (case d_createdAt legacyDoc of None \<Rightarrow> dayTwo | Some c \<Rightarrow> c)"
    by (simp add: sample_defs)
  have h5: "legacyFlatVisit =
      \<lparr>o_location = ''Old Town'',
       o_dineType = (case d_dineType legacyDoc of None \<Rightarrow> dine_in | Some x \<Rightarrow> x),
       o_ratings =
         (case d_ratings legacyDoc of
            None \<Rightarrow> SixRatings \<lparr>foodQuality = 5, foodTaste = 5, staffBehavior = 5, hygiene = 5,
                                  ambience = 5, serviceSpeed = 5\<rparr>
          | Some r \<Rightarrow> r),
       o_note = (case d_note legacyDoc of None \<Rightarrow> [] | Some x \<Rightarrow> x),
       o_staffName = (case d_staffName legacyDoc of None \<Rightarrow> [] | Some x \<Rightarrow> x),
       o_staffComment = (case d_staffComment legacyDoc of None \<Rightarrow> [] | Some x \<Rightarrow> x),
       o_createdAt = toISOString dayOne,
       o_dateKey =
         (case d_dateKey legacyDoc of
            None \<Rightarrow> isoDate dayOne
          | Some k \<Rightarrow> if k = [] then isoDate dayOne else k)\<rparr>"
    by (simp add: legacyFlatVisit_def legacyDoc_def toISOString_dayOne isoDate_dayOne)
  have h6: "castObjectId oidB = Inr (d_id legacyDoc)"
    by (simp add: castObjectId_oidB) (simp add: sample_defs)
  have h7: "findById (d_id legacyDoc) sampleStore = Some legacyDoc"
    by (simp add: findById_def sample_defs)
  show ?thesis
    using mapDocument_legacy
            [OF h1 h2 h3 h4 h5, of dateFilters noSearch sampleStore oidB
               "\<lparr>contactedBy = ''Ravi''\<rparr>" sampleInput oidC]
      h1 h2 h6 h7
    by blast
qed

text \<open>
  C9 as the specification words it fails for createFeedback: customer B, whose stored
  document is of the flat schema, submits on the second day, and the answer holds the
  visit just submitted, not the one that the flat fields describe.
\<close>

theorem createFeedback_drops_legacy_visit:
  "visitsOf legacyDoc = [] \<and> d_location legacyDoc = Some ''Old Town'' \<and>
   findFeedback (in_phoneNumber returningInput) sampleStore = Some legacyDoc \<and>
   fst (createFeedback sampleStore dayTwo oidC returningInput) =
     Inr \<lparr>feedback =
            \<lparr>f_id = oidB, f_name = ''B'', f_phoneNumber = ''9876543210'',
             f_contactedAt = None, f_contactedBy = None, f_visits = [submittedVisit]\<rparr>,
          customerCard =
            Some \<lparr>cv_totalVisits = 1, cv_firstVisitDate = ''2023-11-15T22:13:20.000Z'',
                   cv_lastVisitDate = ''2023-11-15T22:13:20.000Z''\<rparr>\<rparr> \<and>
   submittedVisit \<noteq> legacyFlatVisit"
  by code_simp

section \<open>The stored visits satisfy the VisitSchema\<close>

text \<open>
  A submission that the validator has accepted gives a visit that passes the validators
  of the VisitSchema, so the saves of createFeedback do not fail on them, and every store
  that createFeedback and markContacted build from a store of valid visits is one.
\<close>

lemma zodAp_Inr_iff: "(zodAp a b = Inr y) \<longleftrightarrow> (\<exists>f x. a = Inr f \<and> b = Inr x \<and> y = f x)"
  by (cases a; cases b) auto

lemma zRating_Inr_iff: "(zRating p v = Inr q) \<longleftrightarrow> (v = Some (JNum q) \<and> 1 \<le> q \<and> q \<le> 5)"
  by (auto simp: zRating_def split: option.splits json.splits if_splits)

lemma zRatings_Inr:
  assumes "zRatings p v = Inr r"
  shows "ratingInRange (foodQuality r) \<and> ratingInRange (foodTaste r) \<and>
         ratingInRange (staffBehavior r) \<and> ratingInRange (hygiene r) \<and>
         ratingInRange (ambience r) \<and> ratingInRange (serviceSpeed r)"
  using assms
  by (auto simp: zRatings_def zodAp_Inr_iff zRating_Inr_iff mkRatings_def ratingInRange_def
      split: option.splits json.splits)

lemma insertFeedbackSchema_Inr:
  assumes "insertFeedbackSchema body = Inr i"
  shows "in_name i \<noteq> [] \<and> tenDigits (in_phoneNumber i) \<and> in_location i \<noteq> [] \<and>
         ratingInRange (foodQuality (in_ratings i)) \<and> ratingInRange (foodTaste (in_ratings i)) \<and>
         ratingInRange (staffBehavior (in_ratings i)) \<and> ratingInRange (hygiene (in_ratings i)) \<and>
         ratingInRange (ambience (in_ratings i)) \<and> ratingInRange (serviceSpeed (in_ratings i)) \<and>
         length (in_note i) \<le> 500"
proof -
  from assms obtain kvs n ph l dt r nt sn sc where
    i: "i = mkInsertFeedback n ph l dt r nt sn sc"
    and n: "zStringMin1 [''name''] (map_of kvs ''name'') = Inr n"
    and ph: "zPhone [''phoneNumber''] (map_of kvs ''phoneNumber'') = Inr ph"
    and l: "zStringMin1 [''location''] (map_of kvs ''location'') = Inr l"
    and r: "zRatings [''ratings''] (map_of kvs ''ratings'') = Inr r"
    and nt: "zNote [''note''] (map_of kvs ''note'') = Inr nt"
    by (auto simp: insertFeedbackSchema_def zodAp_Inr_iff split: json.splits)
  from n have "n \<noteq> []"
    by (auto simp: zStringMin1_def split: option.splits json.splits if_splits)
  moreover from l have "l \<noteq> []"
    by (auto simp: zStringMin1_def split: option.splits json.splits if_splits)
  moreover from ph have "tenDigits ph"
    by (auto simp: zPhone_def split: option.splits json.splits if_splits)
  moreover from nt have "length nt \<le> 500"
    by (auto simp: zNote_def split: option.splits json.splits if_splits)
  moreover note zRatings_Inr [OF r]
  ultimately show ?thesis
    by (simp add: i mkInsertFeedback_def)
qed

lemma digit_not_T: "digit n \<noteq> CHR ''T''"
proof -
  have "nat (n mod 10) < length ''0123456789''" by simp
  then have "digit n \<in> set ''0123456789''"
    unfolding digit_def by (rule nth_mem)
  then show ?thesis by auto
qed

lemma yearString_Cons: "\<exists>c cs. yearString y = c # cs \<and> c \<noteq> CHR ''T''"
  by (simp add: yearString_def pad4_def pad6_def digit_not_T)

lemma isoDate_nonempty: "isoDate t \<noteq> []"
proof -
  obtain y m d where c: "civilFromDays (t div msPerDay) = (y, m, d)"
    by (cases "civilFromDays (t div msPerDay)")
  obtain ch cs where ys: "yearString y = ch # cs" and ch: "ch \<noteq> CHR ''T''"
    using yearString_Cons by blast
  show ?thesis
    by (simp add: isoDate_def toISOString_def c ys ch Let_def)
qed

lemma newVisit_valid:
  assumes "insertFeedbackSchema body = Inr i"
  shows "VisitSchema (newVisit now i)"
  using insertFeedbackSchema_Inr [OF assms]
  by (simp add: VisitSchema_def newVisit_def isoDate_nonempty)

lemma saveVisit_docs:
  assumes ok: "saveVisit now oid i fs = Inr (fb, fs')" and d: "d \<in> set fs'"
  shows "d \<in> set fs \<or> (\<exists>old \<in> set fs. visitsOf d = visitsOf old @ [newVisit now i]) \<or>
         visitsOf d = [newVisit now i]"
proof (cases "find (\<lambda>d. d_phoneNumber d = in_phoneNumber i) fs")
  case None
  with ok have "fs' = fs @ [newFeedback oid i (newVisit now i)]"
    by (auto simp: saveVisit_def Let_def)
  with d show ?thesis
    by (auto simp: newFeedback_def visitsOf_def)
next
  case (Some old)
  with ok have fs': "fs' = updateFirst (\<lambda>d. d_phoneNumber d = in_phoneNumber i)
                 (\<lambda>_. old\<lparr>d_visits := Some (visitsOf old @ [newVisit now i])\<rparr>) fs"
    by (auto simp: saveVisit_def Let_def split: if_splits)
  from Some have old: "old \<in> set fs" by (auto dest: find_Some_in)
  from d fs' set_updateFirst [of "\<lambda>d. d_phoneNumber d = in_phoneNumber i"
        "\<lambda>_. old\<lparr>d_visits := Some (visitsOf old @ [newVisit now i])\<rparr>" fs]
  have "d \<in> set fs \<or> d = old\<lparr>d_visits := Some (visitsOf old @ [newVisit now i])\<rparr>"
    by auto
  with old show ?thesis
    by (auto simp: visitsOf_def)
qed

lemma createFeedback_validStore:
  assumes parsed: "insertFeedbackSchema body = Inr i"
    and inv: "\<forall>d \<in> set (feedbacks s). \<forall>v \<in> set (visitsOf d). VisitSchema v"
  shows "\<forall>d \<in> set (feedbacks (snd (createFeedback s now oid i))).
           \<forall>v \<in> set (visitsOf d). VisitSchema v"
proof (cases "saveVisit now oid i (feedbacks s)")
  case (Inl e)
  with inv show ?thesis by (simp add: createFeedback_def)
next
  case (Inr p)
  obtain fb fs where p: "p = (fb, fs)" by (cases p)
  have "\<forall>v \<in> set (visitsOf d). VisitSchema v" if "d \<in> set fs" for d
    using saveVisit_docs [OF Inr [unfolded p] that] inv newVisit_valid [OF parsed, of now]
    by auto
  with Inr p show ?thesis
    by (simp add: createFeedback_def split: prod.splits)
qed

lemma markContacted_validStore:
  assumes inv: "\<forall>d \<in> set (feedbacks s). \<forall>v \<in> set (visitsOf d). VisitSchema v"
  shows "\<forall>d \<in> set (feedbacks (snd (markContacted s now i u))).
           \<forall>v \<in> set (visitsOf d). VisitSchema v"
proof (cases "castObjectId i")
  case (Inl e)
  with inv show ?thesis by (simp add: markContacted_cast_error)
next
  case (Inr oid)
  show ?thesis
  proof (cases "findById oid s")
    case None
    with inv show ?thesis by (simp add: markContacted_not_found [OF Inr])
  next
    case (Some d0)
    have "\<forall>v \<in> set (visitsOf d). VisitSchema v"
      if "d \<in> set (updateFirst (\<lambda>d. d_id d = oid) (setContacted (contactedBy u) now)
                      (feedbacks s))"
      for d
    proof -
      from that set_updateFirst [of "\<lambda>d. d_id d = oid" "setContacted (contactedBy u) now"
          "feedbacks s"]
      have "d \<in> set (feedbacks s) \<or>
            (\<exists>x \<in> set (feedbacks s). d = setContacted (contactedBy u) now x)"
        by auto
      moreover have "visitsOf (setContacted (contactedBy u) now x) = visitsOf x" for x
        by (simp add: setContacted_def visitsOf_def)
      ultimately show ?thesis
        using inv by auto
    qed
    then show ?thesis by (simp add: markContacted_found [OF Inr Some])
  qed
qed

section \<open>getAnalytics\<close>

lemma matchWindow_unwind:
  "matchWindow start (unwind ds) =
     concat (map (\<lambda>d. map (Pair d) (filter (\<lambda>v. start \<le> v_createdAt v) (visitsOf d))) ds)"
  by (induction ds) (simp_all add: matchWindow_def unwind_def filter_map comp_def)

lemma snd_rows: "map snd (concat (map (\<lambda>d. map (Pair d) (F d)) ds)) = concat (map F ds)"
  by (induction ds) (simp_all add: comp_def)

lemma filter_rows:
  "filter (\<lambda>(d, v). C d) (concat (map (\<lambda>d. map (Pair d) (F d)) ds)) =
     concat (map (\<lambda>d. map (Pair d) (if C d then F d else [])) ds)"
  by (induction ds) (simp_all add: filter_map comp_def)

lemma snd_matchWindow_unwind:
  "map snd (matchWindow start (unwind ds)) =
     concat (map (\<lambda>d. filter (\<lambda>v. start \<le> v_createdAt v) (visitsOf d)) ds)"
  by (simp only: matchWindow_unwind snd_rows)

lemma snd_contacted_matchWindow_unwind:
  "map snd (filter (\<lambda>(d, v). d_contactedAt d \<noteq> None) (matchWindow start (unwind ds))) =
     concat (map (\<lambda>d. if d_contactedAt d \<noteq> None
                       then filter (\<lambda>v. start \<le> v_createdAt v) (visitsOf d) else []) ds)"
  by (simp only: matchWindow_unwind filter_rows snd_rows)

lemma windowStart: "startDate now period = now - (if period = week then 7 else 30) * 86400000"
  by (simp add: startDate_def msPerDay_def)

lemma aggregate_counts:
  "st_total (aggregate avgOp s now period) =
     int (length (matchWindow (startDate now period) (unwind (feedbacks s)))) \<and>
   st_contacted (aggregate avgOp s now period) =
     int (length (filter (\<lambda>(d, v). d_contactedAt d \<noteq> None)
                    (matchWindow (startDate now period) (unwind (feedbacks s)))))"
  by (simp add: aggregate_def groupAll_def noStats_def)

lemma window_rows:
  "map snd (matchWindow (startDate now period) (unwind (feedbacks s))) =
     inWindowVisits s now period"
  by (simp only: snd_matchWindow_unwind inWindowVisits_def windowStart)

lemma aggregate_total:
  "st_total (aggregate avgOp s now period) = int (length (inWindowVisits s now period))"
proof -
  have "length (inWindowVisits s now period) =
        length (map snd (matchWindow (startDate now period) (unwind (feedbacks s))))"
    by (simp only: window_rows)
  then show ?thesis by (simp add: aggregate_counts)
qed

lemma aggregate_contacted:
  "st_contacted (aggregate avgOp s now period) =
     int (length (contactedInWindowVisits s now period))"
proof -
  have "length (contactedInWindowVisits s now period) =
        length (map snd (filter (\<lambda>(d, v). d_contactedAt d \<noteq> None)
                  (matchWindow (startDate now period) (unwind (feedbacks s)))))"
    by (simp only: snd_contacted_matchWindow_unwind contactedInWindowVisits_def windowStart)
  then show ?thesis by (simp add: aggregate_counts)
qed

lemma contacted_le_total:
  "length (contactedInWindowVisits s now period) \<le> length (inWindowVisits s now period)"
  unfolding contactedInWindowVisits_def inWindowVisits_def
  by (induction "feedbacks s" arbitrary: s) (auto simp: length_concat intro!: sum_list_mono)

text \<open>
  C2, as the code has it: totalFeedback is the number of visits inside the window, and
  the contacted figure is the number of visits inside the window whose Feedback has
  contactedAt set. Both count visits: a contacted Feedback counts once for each of its
  visits in the window, and not at all when it has none there, so the figure never
  exceeds totalFeedback.
\<close>

theorem getAnalytics_contacted:
  "totalFeedback (getAnalytics avgOp s now period) = int (length (inWindowVisits s now period)) \<and>
   feedbackVolume (getAnalytics avgOp s now period) =
     [(''Contacted'', int (length (contactedInWindowVisits s now period))),
      (''Pending'', int (length (inWindowVisits s now period)) -
                    int (length (contactedInWindowVisits s now period)))] \<and>
   length (contactedInWindowVisits s now period) \<le> length (inWindowVisits s now period)"
  by (simp add: getAnalytics_def Let_def split_beta aggregate_total aggregate_contacted
      contacted_le_total)

theorem getAnalytics_contacted_witness:
  "totalFeedback (getAnalytics exactMean contactedStore dayTwo week) = 2 \<and>
   feedbackVolume (getAnalytics exactMean contactedStore dayTwo week) =
     [(''Contacted'', 2), (''Pending'', 0)]"
proof -
  have 1: "length (inWindowVisits contactedStore dayTwo week) = 2"
    by code_simp
  have 2: "length (contactedInWindowVisits contactedStore dayTwo week) = 2"
    by code_simp
  show ?thesis
    using getAnalytics_contacted [of exactMean contactedStore dayTwo week] by (simp add: 1 2)
qed

text \<open>
  C2 as the specification words it fails: one contacted Feedback with two visits inside
  the week gives a contacted figure of 2, where the store holds 1 contacted document.
\<close>

theorem getAnalytics_contacted_counts_visits:
  "feedbackVolume (getAnalytics exactMean contactedStore dayTwo week) =
     [(''Contacted'', 2), (''Pending'', 0)] \<and>
   length (contactedDocuments contactedStore) = 1"
  by code_simp














end
